theory Spec2Isabelle
  imports Complex_Main "HOL-Library.Monad_Syntax"
begin

section \<open>Arithmetic local search: the repair engine of sls_arith_base\<close>

text \<open>
  A shallow embedding of \<^verbatim>\<open>src/ast/sls/sls_arith_base.cpp\<close> and its header. The class
  \<^verbatim>\<open>arith_base<num_t>\<close> is instantiated at the end of the file for exact rationals and
  for checked 64-bit integers. The engine is modelled at the exact instantiation: a
  numeric value is a \<^typ>\<open>rat\<close>, and integer sorted variables hold integral rationals.
  The two helpers \<^verbatim>\<open>sqrt\<close> and \<^verbatim>\<open>factor\<close> are only called on values of integer
  sorted variables and are modelled on \<^typ>\<open>int\<close>.

  A function that may fail to return (a loop without a bound, a division by zero, a
  failed \<^verbatim>\<open>VERIFY\<close>, an \<^verbatim>\<open>NOT_IMPLEMENTED_YET\<close>, an index outside a vector) has
  an \<open>option\<close> result, and \<open>None\<close> stands for "no result". \<^verbatim>\<open>SASSERT\<close> is compiled out
  of release builds and is not a branch of the model.
\<close>

subsection \<open>The numeric type\<close>

type_synonym num_t = rat

text \<open>
  Modelled from the spec: the truncating integer division \<^verbatim>\<open>div\<close> and the non-negative
  modulo \<^verbatim>\<open>mod\<close> of the numeric type (their definitions, in util/rational.h and
  util/checked_int64.h, are not among the sources). A zero divisor is excluded by the
  callers that can meet one.
\<close>

definition div_int :: "int \<Rightarrow> int \<Rightarrow> int" where
  "div_int a b = sgn a * sgn b * (\<bar>a\<bar> div \<bar>b\<bar>)"

definition mod_int :: "int \<Rightarrow> int \<Rightarrow> int" where
  "mod_int a b = a mod \<bar>b\<bar>"

text \<open>
  Modelled from the spec: the same two operations and the divisibility check on
  \<^typ>\<open>num_t\<close>; they are applied to integral values.
\<close>

definition div_num :: "num_t \<Rightarrow> num_t \<Rightarrow> num_t" where
  "div_num a b = of_int (div_int \<lfloor>a\<rfloor> \<lfloor>b\<rfloor>)"

definition mod_num :: "num_t \<Rightarrow> num_t \<Rightarrow> num_t" where
  "mod_num a b = of_int (mod_int \<lfloor>a\<rfloor> \<lfloor>b\<rfloor>)"

definition divides :: "num_t \<Rightarrow> num_t \<Rightarrow> bool" where
  "divides a b = (if a = 0 then b = 0 else of_int \<lfloor>b / a\<rfloor> = b / a)"

subsection \<open>The data model (sls_arith_base.h)\<close>

datatype ineq_kind = EQ | LE | LT

datatype var_sort = SORT_INT | SORT_REAL

datatype arith_op_kind =
  OP_ADD | OP_MUL | OP_MOD | OP_REM | OP_IDIV | OP_DIV | OP_POWER | OP_ABS
  | OP_TO_INT | OP_TO_REAL | LAST_ARITH_OP

record bound =
  is_strict :: bool
  bvalue :: num_t

record linear_term =
  m_args :: "(num_t \<times> nat) list"
  m_coeff :: num_t

text \<open>
  \<^verbatim>\<open>m_var_to_flip\<close> and \<^verbatim>\<open>m_def_idx\<close> use \<^verbatim>\<open>UINT_MAX\<close> for "none"; the
  model writes \<open>None\<close>.
\<close>

record ineq = linear_term +
  m_op :: ineq_kind
  m_args_value :: num_t
  m_var_to_flip :: "nat option"

text \<open>
  Fields that carry the same name in several structs are told apart by a prefix:
  \<open>vi_\<close> for \<^verbatim>\<open>var_info\<close>, \<open>mul_\<close> for \<^verbatim>\<open>mul_def\<close>, \<open>add_\<close> for
  \<^verbatim>\<open>add_def\<close> and \<open>op_\<close> for \<^verbatim>\<open>op_def\<close>. An expression is its identifier.
\<close>

record var_info =
  m_expr :: nat
  m_value :: num_t
  m_best_value :: num_t
  m_sort :: var_sort
  vi_op :: arith_op_kind
  m_def_idx :: "nat option"
  vi_bool_vars :: "(num_t \<times> nat) list"
  vi_muls :: "nat list"
  vi_adds :: "nat list"
  m_lo :: "bound option"
  m_hi :: "bound option"

record mul_def =
  mul_var :: nat
  mul_coeff :: num_t
  m_monomial :: "nat list"

record add_def = linear_term +
  add_var :: nat

record op_def =
  op_var :: nat
  op_kind :: arith_op_kind
  m_arg1 :: nat
  m_arg2 :: nat

text \<open>
  The controller (\<^verbatim>\<open>ctx\<close>) is external. The engine reads the truth value of a Boolean
  variable, flips one, draws random numbers and reports a changed expression; the model
  keeps exactly that: the truth table, the stream of raw draws with the position of the
  next one, and the list of reported expressions.
\<close>

record controller =
  c_true :: "nat \<Rightarrow> bool"
  c_draws :: "nat \<Rightarrow> nat"
  c_pos :: nat
  c_notified :: "nat list"

record arith_base =
  ctx :: controller
  m_bool_vars :: "ineq option list"
  m_vars :: "var_info list"
  m_muls :: "mul_def list"
  m_adds :: "add_def list"
  m_ops :: "op_def list"
  m_expr2var :: "nat \<Rightarrow> nat option"

text \<open>
  A literal is a Boolean variable with a sign; the sign is true for the negated atom.
\<close>

type_synonym literal = "nat \<times> bool"

definition ctx_is_true :: "arith_base \<Rightarrow> literal \<Rightarrow> bool" where
  "ctx_is_true st lit = (c_true (ctx st) (fst lit) \<noteq> snd lit)"

definition ctx_flip :: "nat \<Rightarrow> arith_base \<Rightarrow> arith_base" where
  "ctx_flip bv st = st\<lparr>ctx := (ctx st)\<lparr>c_true := (c_true (ctx st))(bv := \<not> c_true (ctx st) bv)\<rparr>\<rparr>"

definition ctx_new_value_eh :: "nat \<Rightarrow> arith_base \<Rightarrow> arith_base" where
  "ctx_new_value_eh e st = st\<lparr>ctx := (ctx st)\<lparr>c_notified := c_notified (ctx st) @ [e]\<rparr>\<rparr>"

text \<open>\<^verbatim>\<open>ctx.rand()\<close> is the next raw draw, \<^verbatim>\<open>ctx.rand(n)\<close> the next raw draw modulo \<open>n\<close>.\<close>

definition ctx_rand_raw :: "arith_base \<Rightarrow> nat \<times> arith_base" where
  "ctx_rand_raw st =
     (c_draws (ctx st) (c_pos (ctx st)), st\<lparr>ctx := (ctx st)\<lparr>c_pos := c_pos (ctx st) + 1\<rparr>\<rparr>)"

definition ctx_rand :: "nat \<Rightarrow> arith_base \<Rightarrow> nat \<times> arith_base" where
  "ctx_rand n st = (fst (ctx_rand_raw st) mod n, snd (ctx_rand_raw st))"

subsection \<open>Atoms: truth and distance to truth\<close>

definition is_true :: "ineq \<Rightarrow> bool" where
  "is_true i =
     (case m_op i of
        LE \<Rightarrow> m_args_value i + m_coeff i \<le> 0
      | EQ \<Rightarrow> m_args_value i + m_coeff i = 0
      | LT \<Rightarrow> m_args_value i + m_coeff i < 0)"

text \<open>\<^verbatim>\<open>dtt(bool sign, num_t const& args, ineq const& ineq)\<close>\<close>

definition dtt_args :: "bool \<Rightarrow> num_t \<Rightarrow> ineq \<Rightarrow> num_t" where
  "dtt_args sign args i =
     (case m_op i of
        LE \<Rightarrow>
          if sign then (if args + m_coeff i \<le> 0 then - m_coeff i - args + 1 else 0)
          else if args + m_coeff i \<le> 0 then 0
          else args + m_coeff i
      | EQ \<Rightarrow>
          if sign then (if args + m_coeff i = 0 then 1 else 0)
          else if args + m_coeff i = 0 then 0
          else 1
      | LT \<Rightarrow>
          if sign then (if args + m_coeff i < 0 then - m_coeff i - args else 0)
          else if args + m_coeff i < 0 then 0
          else args + m_coeff i + 1)"

text \<open>\<^verbatim>\<open>dtt(bool sign, ineq const& ineq)\<close>\<close>

definition dtt :: "bool \<Rightarrow> ineq \<Rightarrow> num_t" where
  "dtt sign i = dtt_args sign (m_args_value i) i"

subsection \<open>Variables and bounds\<close>

text \<open>
  Vectors are lists. A variable, a Boolean variable or a definition index outside its
  vector is undefined behaviour in the source; the functions that write through such an
  index give no result there. The lists of arguments stored in atoms and definitions
  only hold indices of existing variables (\<^verbatim>\<open>add_arg\<close> stores what \<^verbatim>\<open>mk_var\<close> and
  \<^verbatim>\<open>mk_term\<close> returned).
\<close>

definition value_of :: "arith_base \<Rightarrow> nat \<Rightarrow> num_t" where
  "value_of st v = m_value (m_vars st ! v)"

definition is_int :: "arith_base \<Rightarrow> nat \<Rightarrow> bool" where
  "is_int st v = (m_sort (m_vars st ! v) = SORT_INT)"

definition atom :: "arith_base \<Rightarrow> nat \<Rightarrow> ineq option" where
  "atom st bv = (if bv < length (m_bool_vars st) then m_bool_vars st ! bv else None)"

definition sign :: "arith_base \<Rightarrow> nat \<Rightarrow> bool" where
  "sign st bv = (\<not> ctx_is_true st (bv, False))"

definition in_bounds :: "arith_base \<Rightarrow> nat \<Rightarrow> num_t \<Rightarrow> bool" where
  "in_bounds st v x =
     (let vi = m_vars st ! v; lo = m_lo vi; hi = m_hi vi in
      if (case lo of None \<Rightarrow> False | Some l \<Rightarrow> x < bvalue l) then False
      else if (case lo of None \<Rightarrow> False | Some l \<Rightarrow> is_strict l \<and> x \<le> bvalue l) then False
      else if (case hi of None \<Rightarrow> False | Some h \<Rightarrow> x > bvalue h) then False
      else if (case hi of None \<Rightarrow> False | Some h \<Rightarrow> is_strict h \<and> x \<ge> bvalue h) then False
      else True)"

definition is_fixed :: "arith_base \<Rightarrow> nat \<Rightarrow> bool" where
  "is_fixed st v =
     (let vi = m_vars st ! v in
      case m_lo vi of None \<Rightarrow> False
      | Some l \<Rightarrow>
          (case m_hi vi of None \<Rightarrow> False
           | Some h \<Rightarrow> bvalue l = bvalue h \<and> bvalue l = value_of st v))"

subsection \<open>update\<close>

fun fold_opt :: "('a \<Rightarrow> 's \<Rightarrow> 's option) \<Rightarrow> 'a list \<Rightarrow> 's \<Rightarrow> 's option" where
  "fold_opt f [] s = Some s"
| "fold_opt f (x # xs) s = (case f x s of None \<Rightarrow> None | Some s' \<Rightarrow> fold_opt f xs s')"

text \<open>
  The body of the loop over \<^verbatim>\<open>vi.m_bool_vars\<close>: the cached sum of the atom moves by
  \<open>coeff * (new_value - old_value)\<close>, and the controller flips the Boolean variable when
  the atom no longer has the truth value the controller holds.
\<close>

definition update_atom :: "num_t \<Rightarrow> num_t \<Rightarrow> num_t \<times> nat \<Rightarrow> arith_base \<Rightarrow> arith_base option" where
  "update_atom new_value old_value cb st =
     (let coeff = fst cb; bv = snd cb in
      case atom st bv of
        None \<Rightarrow> None
      | Some i \<Rightarrow>
          let old_sign = sign st bv;
              i' = i\<lparr>m_args_value := m_args_value i + coeff * (new_value - old_value)\<rparr>;
              st1 = st\<lparr>m_bool_vars := (m_bool_vars st)[bv := Some i']\<rparr>;
              dtt_new = dtt old_sign i'
          in Some (if dtt_new \<noteq> 0 then ctx_flip bv st1 else st1))"

definition below_lo :: "var_info \<Rightarrow> num_t \<Rightarrow> bool" where
  "below_lo vi x = (case m_lo vi of None \<Rightarrow> False | Some l \<Rightarrow> \<not> is_strict l \<and> x < bvalue l)"

definition above_hi :: "var_info \<Rightarrow> num_t \<Rightarrow> bool" where
  "above_hi vi x = (case m_hi vi of None \<Rightarrow> False | Some h \<Rightarrow> \<not> is_strict h \<and> x > bvalue h)"

definition lo_value :: "var_info \<Rightarrow> num_t" where
  "lo_value vi = (case m_lo vi of None \<Rightarrow> 0 | Some l \<Rightarrow> bvalue l)"

definition hi_value :: "var_info \<Rightarrow> num_t" where
  "hi_value vi = (case m_hi vi of None \<Rightarrow> 0 | Some h \<Rightarrow> bvalue h)"

definition mul_prod :: "arith_base \<Rightarrow> mul_def \<Rightarrow> num_t" where
  "mul_prod st md = fold (\<lambda>w prod. prod * value_of st w) (m_monomial md) (mul_coeff md)"

definition args_sum :: "arith_base \<Rightarrow> (num_t \<times> nat) list \<Rightarrow> num_t \<Rightarrow> num_t" where
  "args_sum st args k = fold (\<lambda>cw sum. sum + fst cw * value_of st (snd cw)) args k"

text \<open>
  \<^verbatim>\<open>update\<close> calls itself on a bound when the new value is outside the bounds of an
  integer variable, and on the result of every product and sum that reads the variable.
  Nothing in the function bounds that recursion (it ends when the definitions are acyclic
  and the bounds are consistent), so the model counts it with fuel and has no result when
  the fuel is used up. The result of a nested call on a definition is dropped, as in the
  source.
\<close>

fun update :: "nat \<Rightarrow> arith_base \<Rightarrow> nat \<Rightarrow> num_t \<Rightarrow> (bool \<times> arith_base) option" where
  "update 0 st v new_value = None"
| "update (Suc fuel) st v new_value =
     (if \<not> v < length (m_vars st) then None
      else
        let vi = m_vars st ! v; old_value = m_value vi in
        if old_value = new_value then Some (True, st)
        else if \<not> in_bounds st v new_value then
          (if is_int st v \<and> below_lo vi new_value then
             (if lo_value vi \<noteq> old_value then update fuel st v (lo_value vi)
              else if in_bounds st v (old_value + 1) then update fuel st v (old_value + 1)
              else Some (False, st))
           else if is_int st v \<and> above_hi vi new_value then
             (if hi_value vi \<noteq> old_value then update fuel st v (hi_value vi)
              else if in_bounds st v (old_value - 1) then update fuel st v (old_value - 1)
              else Some (False, st))
           else Some (False, st))
        else
          (case fold_opt (update_atom new_value old_value) (vi_bool_vars vi) st of
             None \<Rightarrow> None
           | Some st1 \<Rightarrow>
               let st2 = st1\<lparr>m_vars := (m_vars st1)[v := (m_vars st1 ! v)\<lparr>m_value := new_value\<rparr>]\<rparr>;
                   st3 = ctx_new_value_eh (m_expr vi) st2
               in
                 (case fold_opt
                    (\<lambda>idx s.
                       if \<not> idx < length (m_muls s) then None
                       else
                         let md = m_muls s ! idx; prod = mul_prod s md in
                         if value_of s (mul_var md) \<noteq> prod
                         then map_option snd (update fuel s (mul_var md) prod)
                         else Some s)
                    (vi_muls vi) st3 of
                    None \<Rightarrow> None
                  | Some st4 \<Rightarrow>
                      (case fold_opt
                         (\<lambda>idx s.
                            if \<not> idx < length (m_adds s) then None
                            else
                              let ad = m_adds s ! idx; sum = args_sum s (m_args ad) (m_coeff ad) in
                              if sum \<noteq> m_coeff ad
                              then map_option snd (update fuel s (add_var ad) sum)
                              else Some s)
                         (vi_adds vi) st4 of
                         None \<Rightarrow> None
                       | Some st5 \<Rightarrow> Some (True, st5)))))"

subsection \<open>Critical moves\<close>

definition divide :: "arith_base \<Rightarrow> nat \<Rightarrow> num_t \<Rightarrow> num_t \<Rightarrow> num_t" where
  "divide st v delta coeff =
     (if is_int st v then div_num (delta + \<bar>coeff\<bar> - 1) coeff else delta / coeff)"

text \<open>The two lambdas of \<^verbatim>\<open>cm\<close>, with the captured \<^verbatim>\<open>new_value\<close> as an argument.\<close>

definition well_formed :: "arith_base \<Rightarrow> ineq \<Rightarrow> nat \<Rightarrow> num_t \<Rightarrow> num_t \<Rightarrow> bool" where
  "well_formed st i v coeff new_value =
     (let bound = - m_coeff i; argsv = m_args_value i;
          new_args = argsv + coeff * (new_value - value_of st v)
      in
        if is_true i then
          (case m_op i of
             LE \<Rightarrow> new_args > bound
           | LT \<Rightarrow> new_args \<ge> bound
           | EQ \<Rightarrow> new_args \<noteq> bound)
        else
          (case m_op i of
             LE \<Rightarrow> new_args \<le> bound
           | LT \<Rightarrow> new_args < bound
           | EQ \<Rightarrow> new_args = bound))"

text \<open>
  \<^verbatim>\<open>move_to_bounds\<close> returns the flag and the final \<^verbatim>\<open>new_value\<close>; a failed
  \<^verbatim>\<open>VERIFY(well_formed())\<close> aborts and gives no result.
\<close>

definition move_to_bounds :: "arith_base \<Rightarrow> ineq \<Rightarrow> nat \<Rightarrow> num_t \<Rightarrow> num_t \<Rightarrow> (bool \<times> num_t) option" where
  "move_to_bounds st i v coeff new_value =
     (if \<not> well_formed st i v coeff new_value then None
      else if \<not> in_bounds st v (value_of st v) then Some (True, new_value)
      else if in_bounds st v new_value then Some (True, new_value)
      else
        let vi = m_vars st ! v;
            nv1 = (case m_lo vi of
                     None \<Rightarrow> new_value
                   | Some l \<Rightarrow>
                       if bvalue l > new_value
                       then (if \<not> well_formed st i v coeff (bvalue l) then bvalue l + 1 else bvalue l)
                       else new_value);
            nv2 = (case m_hi vi of
                     None \<Rightarrow> nv1
                   | Some h \<Rightarrow>
                       if bvalue h < nv1
                       then (if \<not> well_formed st i v coeff (bvalue h) then bvalue h - 1 else bvalue h)
                       else nv1)
        in Some (well_formed st i v coeff nv2 \<and> in_bounds st v nv2, nv2))"

definition with_state :: "arith_base \<Rightarrow> 'a option \<Rightarrow> ('a \<times> arith_base) option" where
  "with_state st r = map_option (\<lambda>x. (x, st)) r"

text \<open>
  \<^verbatim>\<open>cm(ineq, v, coeff, new_value)\<close>. The reference \<^verbatim>\<open>new_value\<close> is an argument and a
  part of the result; the state in the result differs from the argument by the random
  draws. The coefficients of an atom are not zero (\<^verbatim>\<open>add_arg\<close> drops a zero
  coefficient); a division by a zero coefficient gives no result.
\<close>

definition cm_coeff :: "arith_base \<Rightarrow> ineq \<Rightarrow> nat \<Rightarrow> num_t \<Rightarrow> num_t \<Rightarrow> ((bool \<times> num_t) \<times> arith_base) option" where
  "cm_coeff st i v coeff new_value =
     (if \<not> v < length (m_vars st) then None
      else
        let bound = - m_coeff i; argsv = m_args_value i; delta = argsv - bound in
        if is_fixed st v then Some ((False, new_value), st)
        else if coeff = 0 then None
        else if is_true i then
          (case m_op i of
             LE \<Rightarrow>
               let delta1 = delta - 1;
                   (r, st1) = ctx_rand 3 st;
                   nv = value_of st1 v + divide st1 v \<bar>delta1 - of_nat r\<bar> coeff
               in with_state st1 (move_to_bounds st1 i v coeff nv)
           | LT \<Rightarrow>
               let delta1 = \<bar>delta\<bar>;
                   (r, st1) = ctx_rand 3 st;
                   nv = value_of st1 v + divide st1 v (delta1 + of_nat r) coeff
               in if \<not> argsv + coeff * (nv - value_of st1 v) \<ge> bound then None
                  else with_state st1 (move_to_bounds st1 i v coeff nv)
           | EQ \<Rightarrow>
               let (r10, st1) = ctx_rand 10 st;
                   delta1 = \<bar>delta\<bar> + 1 + of_nat r10;
                   (r2, st2) = ctx_rand 2 st1;
                   sgn1 = (if r2 = 0 then 1 else - 1);
                   nv = value_of st2 v + sgn1 * divide st2 v \<bar>delta1\<bar> coeff
               in with_state st2 (move_to_bounds st2 i v coeff nv))
        else
          (case m_op i of
             LE \<Rightarrow>
               let (r10, st1) = ctx_rand 10 st;
                   delta1 = delta + of_nat r10;
                   (r3, st2) = ctx_rand 3 st1;
                   nv = value_of st2 v - divide st2 v (delta1 + of_nat r3) coeff
               in with_state st2 (move_to_bounds st2 i v coeff nv)
           | LT \<Rightarrow>
               let (r10, st1) = ctx_rand 10 st;
                   delta1 = delta + 1 + of_nat r10;
                   (r3, st2) = ctx_rand 3 st1;
                   nv = value_of st2 v - divide st2 v (delta1 + of_nat r3) coeff
               in with_state st2 (move_to_bounds st2 i v coeff nv)
           | EQ \<Rightarrow>
               let nv = (if delta < 0 then value_of st v + divide st v \<bar>delta\<bar> coeff
                         else value_of st v - divide st v delta coeff);
                   solved = (argsv + coeff * (nv - value_of st v) = bound)
               in if solved then with_state st (move_to_bounds st i v coeff nv)
                  else Some ((False, nv), st)))"

text \<open>\<^verbatim>\<open>cm(ineq, v, new_value)\<close> looks the coefficient of \<open>v\<close> up.\<close>

definition cm :: "arith_base \<Rightarrow> ineq \<Rightarrow> nat \<Rightarrow> num_t \<Rightarrow> ((bool \<times> num_t) \<times> arith_base) option" where
  "cm st i v new_value =
     (case find (\<lambda>cw. snd cw = v) (m_args i) of
        Some cw \<Rightarrow> cm_coeff st i v (fst cw) new_value
      | None \<Rightarrow> Some ((False, new_value), st))"

subsection \<open>Pairs of variables in an equation\<close>

text \<open>
  Modelled from the spec: the gcd with B\'ezout coefficients, \<^verbatim>\<open>gcd(a, b, x0, y0)\<close> of
  the numeric type, which is not among the sources. \<^verbatim>\<open>solve_eq_pairs\<close> takes it as the
  parameter \<open>G\<close>; \<open>gcd_bezout\<close> is the extended Euclidean algorithm.
\<close>

function euclid_ext :: "int \<Rightarrow> int \<Rightarrow> int \<times> int \<times> int" where
  "euclid_ext a b =
     (if b = 0 then (\<bar>a\<bar>, sgn a, 0)
      else case euclid_ext b (a mod b) of (g, x, y) \<Rightarrow> (g, y, x - (a div b) * y))"
  by pat_completeness auto
termination
  by (relation "measure (\<lambda>(a, b). nat \<bar>b\<bar>)") (auto simp: abs_mod_less)

definition gcd_bezout :: "num_t \<Rightarrow> num_t \<Rightarrow> num_t \<times> num_t \<times> num_t" where
  "gcd_bezout a b =
     (case euclid_ext \<lfloor>a\<rfloor> \<lfloor>b\<rfloor> of (g, x, y) \<Rightarrow> (of_int g, of_int x, of_int y))"

text \<open>
  The lambdas \<^verbatim>\<open>adjust_lo\<close> and \<^verbatim>\<open>adjust_hi\<close>: they capture the outer variable
  \<open>x\<close> and the gcd \<open>g\<close>, and return the flag with the two values they were given by
  reference.
\<close>

definition adjust_lo :: "arith_base \<Rightarrow> nat \<Rightarrow> num_t \<Rightarrow> num_t \<Rightarrow> num_t \<Rightarrow> num_t \<Rightarrow> num_t
    \<Rightarrow> bound option \<Rightarrow> bound option \<Rightarrow> bool \<times> num_t \<times> num_t" where
  "adjust_lo st x g x0 y0 a b lo hi =
     (case lo of
        None \<Rightarrow> (True, x0, y0)
      | Some l \<Rightarrow>
          if bvalue l \<le> x0 then (True, x0, y0)
          else
            let delta = bvalue l - x0;
                bg = \<bar>div_num b g\<bar>;
                k = divide st x delta bg;
                x1 = x0 + k * bg
            in if (case hi of None \<Rightarrow> False | Some h \<Rightarrow> bvalue h < x1) then (False, x0, y0)
               else (True, x1, y0 + k * (if div_num b g > 0 then - div_num a g else div_num a g)))"

definition adjust_hi :: "arith_base \<Rightarrow> nat \<Rightarrow> num_t \<Rightarrow> num_t \<Rightarrow> num_t \<Rightarrow> num_t \<Rightarrow> num_t
    \<Rightarrow> bound option \<Rightarrow> bound option \<Rightarrow> bool \<times> num_t \<times> num_t" where
  "adjust_hi st x g x0 y0 a b lo hi =
     (case hi of
        None \<Rightarrow> (True, x0, y0)
      | Some h \<Rightarrow>
          if bvalue h \<ge> x0 then (True, x0, y0)
          else
            let delta = x0 - bvalue h;
                bg = \<bar>div_num b g\<bar>;
                k = div_num delta bg;
                x1 = x0 - k * bg
            in if (case lo of None \<Rightarrow> False | Some l \<Rightarrow> bvalue l < x1) then (False, x0, y0)
               else (True, x1, y0 - k * (if div_num b g > 0 then - div_num a g else div_num a g)))"

text \<open>\<^verbatim>\<open>solve_eq_pairs(a, x, b, y, r)\<close>\<close>

definition solve_eq_pairs_xy :: "(num_t \<Rightarrow> num_t \<Rightarrow> num_t \<times> num_t \<times> num_t) \<Rightarrow> nat \<Rightarrow> arith_base
    \<Rightarrow> num_t \<Rightarrow> nat \<Rightarrow> num_t \<Rightarrow> nat \<Rightarrow> num_t \<Rightarrow> (bool \<times> arith_base) option" where
  "solve_eq_pairs_xy G fuel st a x b y r =
     (if \<not> (x < length (m_vars st) \<and> y < length (m_vars st)) then None
      else if is_fixed st y then Some (False, st)
      else
        case G a b of (g, gx, gy) \<Rightarrow>
        if \<not> divides g r then Some (False, st)
        else
          let x0 = gx * div_num r g;
              y0 = gy * div_num r g;
              lo_x = m_lo (m_vars st ! x); hi_x = m_hi (m_vars st ! x);
              lo_y = m_lo (m_vars st ! y); hi_y = m_hi (m_vars st ! y)
          in
            case adjust_lo st x g x0 y0 a b lo_x hi_x of (ok1, x1, y1) \<Rightarrow>
            if \<not> ok1 then Some (False, st)
            else
              case adjust_hi st x g x1 y1 a b lo_x hi_x of (ok2, x2, y2) \<Rightarrow>
              if \<not> ok2 then Some (False, st)
              else
                case adjust_lo st x g y2 x2 b a lo_y hi_y of (ok3, y3, x3) \<Rightarrow>
                if \<not> ok3 then Some (False, st)
                else
                  case adjust_hi st x g y3 x3 b a lo_y hi_y of (ok4, y4, x4) \<Rightarrow>
                  if \<not> ok4 then Some (False, st)
                  else if (case lo_x of None \<Rightarrow> False | Some l \<Rightarrow> bvalue l > x4) then Some (False, st)
                  else if (case hi_x of None \<Rightarrow> False | Some h \<Rightarrow> bvalue h < x4) then Some (False, st)
                  else if x4 = value_of st x then Some (False, st)
                  else if \<bar>value_of st x\<bar> * 2 < \<bar>x4\<bar> then Some (False, st)
                  else if \<bar>value_of st y\<bar> * 2 < \<bar>y4\<bar> then Some (False, st)
                  else
                    (case update fuel st x x4 of
                       None \<Rightarrow> None
                     | Some (_, st1) \<Rightarrow>
                         (case update fuel st1 y y4 of
                            None \<Rightarrow> None
                          | Some (_, st2) \<Rightarrow> Some (True, st2))))"

text \<open>
  The loop of \<^verbatim>\<open>solve_eq_pairs(ineq)\<close> over the positions \<open>(start + i) % size\<close>, with
  the running \<^verbatim>\<open>argsv\<close>.
\<close>

fun solve_eq_pairs_loop :: "(num_t \<Rightarrow> num_t \<Rightarrow> num_t \<times> num_t \<times> num_t) \<Rightarrow> nat \<Rightarrow> arith_base \<Rightarrow> ineq
    \<Rightarrow> nat \<Rightarrow> num_t \<Rightarrow> num_t \<Rightarrow> nat list \<Rightarrow> (bool \<times> arith_base) option" where
  "solve_eq_pairs_loop G fuel st i v a argsv [] = Some (False, st)"
| "solve_eq_pairs_loop G fuel st i v a argsv (j # js) =
     (let b = fst (m_args i ! j); w = snd (m_args i ! j) in
      if w = v then solve_eq_pairs_loop G fuel st i v a argsv js
      else if b = 1 \<or> b = - 1 then solve_eq_pairs_loop G fuel st i v a argsv js
      else
        let argsv1 = argsv - value_of st w * b in
        case solve_eq_pairs_xy G fuel st a v b w (- m_coeff i - argsv1) of
          None \<Rightarrow> None
        | Some (True, st') \<Rightarrow> Some (True, st')
        | Some (False, st') \<Rightarrow>
            solve_eq_pairs_loop G fuel st' i v a (argsv1 + value_of st' w * b) js)"

text \<open>\<^verbatim>\<open>solve_eq_pairs(ineq)\<close>\<close>

definition solve_eq_pairs :: "(num_t \<Rightarrow> num_t \<Rightarrow> num_t \<times> num_t \<times> num_t) \<Rightarrow> nat \<Rightarrow> arith_base \<Rightarrow> ineq
    \<Rightarrow> (bool \<times> arith_base) option" where
  "solve_eq_pairs G fuel st i =
     (case m_var_to_flip i of
        None \<Rightarrow> None
      | Some v \<Rightarrow>
          if \<not> v < length (m_vars st) then None
          else if is_fixed st v then Some (False, st)
          else
            let a = fold (\<lambda>cw a. if v = snd cw then fst cw else a) (m_args i) 0;
                argsv = fold (\<lambda>cw s. if v = snd cw then s - value_of st v * fst cw else s)
                          (m_args i) (m_args_value i)
            in
              if \<bar>a\<bar> = 1 then Some (False, st)
              else
                let (start, st1) = ctx_rand_raw st;
                    sz = length (m_args i)
                in solve_eq_pairs_loop G fuel st1 i v a argsv
                     (map (\<lambda>k. (start + k) mod sz) [0..<sz]))"

subsection \<open>Bounds from unit literals\<close>







subsection \<open>Operator definitions\<close>

text \<open>
  The remainder \<^verbatim>\<open>%=\<close> of the numeric type is not among the sources either; it is
  taken as the remainder of the truncating division.
\<close>

definition rem_num :: "num_t \<Rightarrow> num_t \<Rightarrow> num_t" where
  "rem_num a b = a - b * div_num a b"

text \<open>
  \<^verbatim>\<open>mk_op(k, e, x, y)\<close> starts with \<^verbatim>\<open>v = mk_var(e)\<close> and \<^verbatim>\<open>w = mk_term(x)\<close>,
  which walk the external syntax tree; the model is the rest of the function, from the
  state these two calls leave and the indices \<open>v\<close> and \<open>w\<close> they return. The second
  operand \<open>y\<close> is an argument of the model as it is of the function, and like the
  function the model never reads it: the divisor of the initial value is \<^verbatim>\<open>value(v)\<close>,
  and the definition is pushed as \<^verbatim>\<open>{v, k, v, w}\<close>. A kind outside the five cases is
  \<^verbatim>\<open>NOT_IMPLEMENTED_YET\<close>.
\<close>

definition mk_op_val :: "arith_base \<Rightarrow> arith_op_kind \<Rightarrow> nat \<Rightarrow> nat \<Rightarrow> num_t option" where
  "mk_op_val st k v w =
     (case k of
        OP_MOD \<Rightarrow> Some (if value_of st v = 0 then 0 else mod_num (value_of st w) (value_of st v))
      | OP_REM \<Rightarrow> Some (if value_of st v = 0 then 0 else rem_num (value_of st w) (value_of st v))
      | OP_IDIV \<Rightarrow> Some (if value_of st v = 0 then 0 else div_num (value_of st w) (value_of st v))
      | OP_DIV \<Rightarrow> Some (if value_of st v = 0 then 0 else value_of st w / value_of st v)
      | OP_ABS \<Rightarrow> Some \<bar>value_of st w\<bar>
      | _ \<Rightarrow> None)"

definition mk_op :: "arith_op_kind \<Rightarrow> nat \<Rightarrow> nat \<Rightarrow> nat \<Rightarrow> arith_base \<Rightarrow> (nat \<times> arith_base) option" where
  "mk_op k v w y st =
     (if \<not> v < length (m_vars st) then None
      else
        let idx = length (m_ops st) in
        case mk_op_val st k v w of
          None \<Rightarrow> None
        | Some val \<Rightarrow>
            Some (v, st\<lparr>m_ops := m_ops st @ [\<lparr>op_var = v, op_kind = k, m_arg1 = v, m_arg2 = w\<rparr>],
                        m_vars := (m_vars st)[v := (m_vars st ! v)
                           \<lparr>m_def_idx := Some idx, vi_op := k, m_value := val\<rparr>]\<rparr>))"

text \<open>\<^verbatim>\<open>repair_up(e)\<close>: the value of the definition, handed to \<^verbatim>\<open>update\<close>.\<close>

definition repair_up_val :: "arith_base \<Rightarrow> var_info \<Rightarrow> nat \<Rightarrow> num_t option" where
  "repair_up_val st vi idx =
     (case vi_op vi of
        OP_ADD \<Rightarrow>
          if idx < length (m_adds st)
          then Some (args_sum st (m_args (m_adds st ! idx)) (m_coeff (m_adds st ! idx)))
          else None
      | OP_MUL \<Rightarrow> if idx < length (m_muls st) then Some (mul_prod st (m_muls st ! idx)) else None
      | OP_ABS \<Rightarrow>
          if idx < length (m_ops st) then Some \<bar>value_of st (m_arg1 (m_ops st ! idx))\<bar> else None
      | _ \<Rightarrow>
          if idx < length (m_ops st) then
            let v1 = value_of st (m_arg1 (m_ops st ! idx));
                v2 = value_of st (m_arg2 (m_ops st ! idx))
            in (case vi_op vi of
                  OP_MOD \<Rightarrow> Some (if v2 = 0 then 0 else mod_num v1 v2)
                | OP_DIV \<Rightarrow> Some (if v2 = 0 then 0 else v1 / v2)
                | OP_IDIV \<Rightarrow> Some (if v2 = 0 then 0 else div_num v1 v2)
                | OP_REM \<Rightarrow> Some (if v2 = 0 then 0 else rem_num v1 v2)
                | _ \<Rightarrow> None)
          else None)"

definition repair_up :: "nat \<Rightarrow> arith_base \<Rightarrow> nat \<Rightarrow> arith_base option" where
  "repair_up fuel st e =
     (case m_expr2var st e of
        None \<Rightarrow> Some st
      | Some v \<Rightarrow>
          if \<not> v < length (m_vars st) then None
          else
            let vi = m_vars st ! v in
            (case m_def_idx vi of
               None \<Rightarrow> Some st
             | Some idx \<Rightarrow>
                 if vi_op vi = LAST_ARITH_OP then Some st
                 else
                   (case repair_up_val st vi idx of
                      None \<Rightarrow> None
                    | Some n \<Rightarrow> map_option snd (update fuel st v n))))"

subsection \<open>Integer square root and factoring\<close>

text \<open>
  \<^verbatim>\<open>sqrt\<close>: the Newton iteration. The loop has no bound of its own and divides by the
  current iterate, so the model is partial: a zero divisor gives no result.
\<close>

definition sqrt_next :: "int \<Rightarrow> int \<Rightarrow> int option" where
  "sqrt_next n x0 = (if x0 = 0 then None else Some (div_int (x0 + div_int n x0) 2))"

partial_function (option) sqrt_while :: "int \<Rightarrow> int \<Rightarrow> int \<Rightarrow> int option" where
  "sqrt_while n x0 x1 =
     (if x1 < x0 then Option.bind (sqrt_next n x1) (\<lambda>x2. sqrt_while n x1 x2)
      else Some x0)"

definition sqrt_int :: "int \<Rightarrow> int option" where
  "sqrt_int n =
     (if n \<le> 1 then Some n
      else let x0 = div_int n 2 in
        Option.bind (sqrt_next n x0) (\<lambda>x1. sqrt_while n x0 x1))"

text \<open>
  \<^verbatim>\<open>factor\<close>: the inner loop \<^verbatim>\<open>while (mod(n, d) == 0)\<close> pushes \<open>d\<close> and divides.
\<close>

partial_function (option) factor_while :: "int \<Rightarrow> int \<Rightarrow> int list \<Rightarrow> (int \<times> int list) option" where
  "factor_while d n fs =
     (if mod_int n d = 0 then factor_while d (div_int n d) (fs @ [d])
      else Some (n, fs))"

definition increments :: "int list" where
  "increments = [4, 2, 4, 2, 4, 6, 2, 6]"

text \<open>
  The wheel: \<^verbatim>\<open>for (d = 7; d * d <= n && j < 3; d += increments[i++], ++j)\<close>, with the
  reset of \<open>i\<close> at 8 inside the body.
\<close>

function factor_wheel :: "int \<Rightarrow> nat \<Rightarrow> nat \<Rightarrow> int \<Rightarrow> int list \<Rightarrow> (int \<times> int list) option" where
  "factor_wheel d i j n fs =
     (if d * d \<le> n \<and> j < 3 then
        (case factor_while d n fs of
           None \<Rightarrow> None
         | Some (n', fs') \<Rightarrow>
             let i' = (if i = 8 then 0 else i)
             in if i' < length increments
                then factor_wheel (d + increments ! i') (i' + 1) (j + 1) n' fs'
                else None)
      else Some (n, fs))"
  by pat_completeness auto
termination
  by (relation "measure (\<lambda>(d, i, j, n, fs). 3 - j)") auto

definition factor :: "int \<Rightarrow> int list option" where
  "factor n =
     (case factor_while 2 n [] of
        None \<Rightarrow> None
      | Some (n2, f2) \<Rightarrow>
          (case factor_while 3 n2 f2 of
             None \<Rightarrow> None
           | Some (n3, f3) \<Rightarrow>
               (case factor_while 5 n3 f3 of
                  None \<Rightarrow> None
                | Some (n5, f5) \<Rightarrow>
                    (case factor_wheel 7 0 0 n5 f5 of
                       None \<Rightarrow> None
                     | Some (n', fs) \<Rightarrow> Some (if n' > 1 then fs @ [n'] else fs)))))"

subsection \<open>Repair of a product\<close>

text \<open>
  \<^verbatim>\<open>sqrt\<close> and \<^verbatim>\<open>factor\<close> at the numeric type: the callers pass values of integer
  variables.
\<close>

definition sqrt_num :: "num_t \<Rightarrow> num_t option" where
  "sqrt_num n = map_option of_int (sqrt_int \<lfloor>n\<rfloor>)"

definition factor_num :: "num_t \<Rightarrow> num_t list option" where
  "factor_num n = map_option (map of_int) (factor \<lfloor>n\<rfloor>)"

text \<open>
  The coefficient of a product is the product of the numerals among its factors and can
  be zero; dividing by it then gives no result.
\<close>

definition repair_square :: "nat \<Rightarrow> arith_base \<Rightarrow> mul_def \<Rightarrow> (bool \<times> arith_base) option" where
  "repair_square fuel st md =
     (let v = mul_var md; coeff = mul_coeff md; monomial = m_monomial md in
      if \<not> is_int st v \<or> length monomial \<noteq> 2 \<or> monomial ! 0 \<noteq> monomial ! 1 then Some (False, st)
      else if coeff = 0 then None
      else
        let val = div_num (value_of st v) coeff; w = monomial ! 0 in
        if val < 0 then
          (let (r, st1) = ctx_rand 10 st in
           map_option (\<lambda>res. (True, snd res)) (update fuel st1 w (of_nat r)))
        else
          (case sqrt_num val of
             None \<Rightarrow> None
           | Some root0 \<Rightarrow>
               let (r3, st1) = ctx_rand 3 st;
                   root = (if r3 = 0 then - root0 else root0)
               in
                 if root * root = val
                 then map_option (\<lambda>res. (True, snd res)) (update fuel st1 w root)
                 else
                   (let (r, st2) = ctx_rand 3 st1 in
                    map_option (\<lambda>res. (True, snd res)) (update fuel st2 w (root + of_nat r - 1)))))"

fun repair_mul1_loop :: "nat \<Rightarrow> arith_base \<Rightarrow> mul_def \<Rightarrow> num_t \<Rightarrow> nat list \<Rightarrow> (bool \<times> arith_base) option" where
  "repair_mul1_loop fuel st md val [] = Some (False, st)"
| "repair_mul1_loop fuel st md val (j # js) =
     (let w = m_monomial md ! j;
          product = fold (\<lambda>v p. if v \<noteq> w then p * value_of st v else p) (m_monomial md) 1
      in
        if product = 0 \<or> \<not> divides product val then repair_mul1_loop fuel st md val js
        else
          (case update fuel st w (div_num val product) of
             None \<Rightarrow> None
           | Some (True, st') \<Rightarrow> Some (True, st')
           | Some (False, st') \<Rightarrow> repair_mul1_loop fuel st' md val js))"

definition repair_mul1 :: "nat \<Rightarrow> arith_base \<Rightarrow> mul_def \<Rightarrow> (bool \<times> arith_base) option" where
  "repair_mul1 fuel st md =
     (let v = mul_var md; coeff = mul_coeff md in
      if \<not> is_int st v then Some (False, st)
      else if coeff = 0 then None
      else
        let val = div_num (value_of st v) coeff in
        if val = 0 then Some (False, st)
        else
          let sz = length (m_monomial md);
              (start, st1) = ctx_rand sz st
          in repair_mul1_loop fuel st1 md val (map (\<lambda>k. (start + k) mod sz) [0..<sz]))"

text \<open>
  The last branch of \<^verbatim>\<open>repair_mul\<close>. \<open>repair_mul_n\<close> is its local \<open>n\<close>, the argument
  of \<^verbatim>\<open>factor(abs(n))\<close>: \<^verbatim>\<open>n = div(val, coeff)\<close>, replaced by
  \<^verbatim>\<open>div(val + coeff - 1, coeff)\<close> when \<open>coeff\<close> does not divide \<open>val\<close> and the draw is 0.
\<close>

definition repair_mul_n :: "arith_base \<Rightarrow> num_t \<Rightarrow> num_t \<Rightarrow> num_t \<times> arith_base" where
  "repair_mul_n st val coeff =
     (if \<not> divides coeff val then
        (let (r2, st1) = ctx_rand 2 st in
         (if r2 = 0 then div_num (val + coeff - 1) coeff else div_num val coeff, st1))
      else (div_num val coeff, st))"

text \<open>The sign of each factor: forced by a bound of the variable, drawn otherwise.\<close>

fun repair_mul_signs :: "arith_base \<Rightarrow> nat list \<Rightarrow> num_t list \<times> arith_base" where
  "repair_mul_signs st [] = ([], st)"
| "repair_mul_signs st (w # ws) =
     (let vi = m_vars st ! w;
          (c, st1) =
            (if (case m_lo vi of None \<Rightarrow> False | Some l \<Rightarrow> bvalue l \<ge> 0) then (1, st)
             else if (case m_hi vi of None \<Rightarrow> False | Some h \<Rightarrow> bvalue h < 0) then (- 1, st)
             else (let (r2, s) = ctx_rand 2 st in (if r2 = 0 then 1 else - 1, s)));
          (cs, st2) = repair_mul_signs st1 ws
      in (c # cs, st2))"

text \<open>\<^verbatim>\<open>for (auto f : fs) coeffs[ctx.rand(sz)] *= f\<close>\<close>

fun repair_mul_spread :: "arith_base \<Rightarrow> num_t list \<Rightarrow> num_t list \<Rightarrow> num_t list \<times> arith_base" where
  "repair_mul_spread st coeffs [] = (coeffs, st)"
| "repair_mul_spread st coeffs (f # fs) =
     (let (r, st1) = ctx_rand (length coeffs) st
      in repair_mul_spread st1 (coeffs[r := coeffs ! r * f]) fs)"

text \<open>The final loop: the first failed \<^verbatim>\<open>update\<close> ends the repair with false.\<close>

fun repair_mul_assign :: "nat \<Rightarrow> arith_base \<Rightarrow> nat list \<Rightarrow> num_t list \<Rightarrow> (bool \<times> arith_base) option" where
  "repair_mul_assign fuel st [] cs = Some (True, st)"
| "repair_mul_assign fuel st (w # ws) cs =
     (case cs of
        [] \<Rightarrow> None
      | c # cs' \<Rightarrow>
          (case update fuel st w c of
             None \<Rightarrow> None
           | Some (False, st') \<Rightarrow> Some (False, st')
           | Some (True, st') \<Rightarrow> repair_mul_assign fuel st' ws cs'))"

text \<open>
  \<^verbatim>\<open>repair_mul\<close>. The vector \<^verbatim>\<open>gcds\<close> of the last branch is computed and never read;
  it is left out. The variable \<^verbatim>\<open>sign\<close> is the product of the initial coefficients,
  which are all 1.
\<close>

definition repair_mul :: "nat \<Rightarrow> arith_base \<Rightarrow> mul_def \<Rightarrow> (bool \<times> arith_base) option" where
  "repair_mul fuel st md =
     (let v = mul_var md; coeff = mul_coeff md; monomial = m_monomial md;
          product = mul_prod st md; val = value_of st v
      in
        if product = val then Some (True, st)
        else
          let sz = length monomial; (r20, st1) = ctx_rand 20 st in
          if r20 = 0 then update fuel st1 v product
          else if val = 0 then
            (let (r, st2) = ctx_rand sz st1 in update fuel st2 (monomial ! r) 0)
          else
            (case repair_square fuel st1 md of
               None \<Rightarrow> None
             | Some (True, st2) \<Rightarrow> Some (True, st2)
             | Some (False, st2) \<Rightarrow>
                 let (r4, st3) = ctx_rand 4 st2 in
                 (case (if r4 \<noteq> 0 then repair_mul1 fuel st3 md else Some (False, st3)) of
                    None \<Rightarrow> None
                  | Some (True, st4) \<Rightarrow> Some (True, st4)
                  | Some (False, st4) \<Rightarrow>
                      if \<not> is_int st4 v then None
                      else if coeff = 0 then None
                      else
                        let (n, st5) = repair_mul_n st4 val coeff in
                        (case factor_num \<bar>n\<bar> of
                           None \<Rightarrow> None
                         | Some fs \<Rightarrow>
                             let sign0 = (1 :: num_t);
                                 (coeffs1, st6) = repair_mul_signs st5 monomial;
                                 (coeffs2, st7) = repair_mul_spread st6 coeffs1 fs;
                                 (coeffs3, st8) =
                                   (if (sign0 = 0) \<noteq> (n = 0)
                                    then (let (r, s) = ctx_rand sz st7
                                          in (coeffs2[r := coeffs2 ! r * (- 1)], s))
                                    else (coeffs2, st7))
                             in repair_mul_assign fuel st8 monomial coeffs3))))"

subsection \<open>The invariant checked by the engine\<close>

text \<open>
  \<^verbatim>\<open>invariant(ineq)\<close> and \<^verbatim>\<open>invariant()\<close>: the assertions of the source as a
  predicate.
\<close>

definition invariant_ineq :: "arith_base \<Rightarrow> ineq \<Rightarrow> bool" where
  "invariant_ineq st i = (args_sum st (m_args i) 0 = m_args_value i)"

definition invariant :: "arith_base \<Rightarrow> bool" where
  "invariant st =
     (list_all (\<lambda>a. case a of None \<Rightarrow> True | Some i \<Rightarrow> invariant_ineq st i) (m_bool_vars st)
      \<and> list_all (\<lambda>md. mul_prod st md = value_of st (mul_var md)) (m_muls st)
      \<and> list_all (\<lambda>ad. args_sum st (m_args ad) (m_coeff ad) = value_of st (add_var ad)) (m_adds st))"

subsection \<open>Engine states of the scenarios\<close>

text \<open>
  The constructor \<^verbatim>\<open>var_info(e, k)\<close> with the default member initialisers, a controller
  whose draws are all \<open>d\<close> and whose Boolean variables are all true, and the engine before
  any term is registered.
\<close>

definition new_var_info :: "nat \<Rightarrow> var_sort \<Rightarrow> var_info" where
  "new_var_info e k =
     \<lparr>m_expr = e, m_value = 0, m_best_value = 0, m_sort = k, vi_op = LAST_ARITH_OP,
      m_def_idx = None, vi_bool_vars = [], vi_muls = [], vi_adds = [], m_lo = None, m_hi = None\<rparr>"

definition new_controller :: "nat \<Rightarrow> controller" where
  "new_controller d = \<lparr>c_true = (\<lambda>_. True), c_draws = (\<lambda>_. d), c_pos = 0, c_notified = []\<rparr>"

definition new_arith_base :: "nat \<Rightarrow> arith_base" where
  "new_arith_base d =
     \<lparr>ctx = new_controller d, m_bool_vars = [], m_vars = [], m_muls = [], m_adds = [],
      m_ops = [], m_expr2var = (\<lambda>_. None)\<rparr>"

text \<open>
  The sum \<open>r = x + 5\<close> over an integer \<open>x\<close> without bounds, after \<open>x\<close> was moved to 3:
  \<open>x\<close> is variable 0, \<open>r\<close> is variable 1 with value 8.
\<close>

definition st_sum :: arith_base where
  "st_sum =
     (new_arith_base 0)
       \<lparr>m_vars := [(new_var_info 0 SORT_INT)\<lparr>m_value := 3, vi_adds := [0]\<rparr>,
                  (new_var_info 1 SORT_INT)\<lparr>m_value := 8, vi_op := OP_ADD, m_def_idx := Some 0\<rparr>],
        m_adds := [\<lparr>m_args = [(1, 0)], m_coeff = 5, add_var = 1\<rparr>],
        m_expr2var := (\<lambda>e. if e < 2 then Some e else None)\<rparr>"

text \<open>
  An integer \<open>x\<close> with the bounds \<open>0 \<le> x \<le> 0\<close> and the value 0: a fixed variable.
\<close>

definition st_fixed :: arith_base where
  "st_fixed =
     (new_arith_base 0)
       \<lparr>m_vars := [(new_var_info 0 SORT_INT)
                    \<lparr>m_lo := Some \<lparr>is_strict = False, bvalue = 0\<rparr>,
                     m_hi := Some \<lparr>is_strict = False, bvalue = 0\<rparr>\<rparr>]\<rparr>"

text \<open>
  The atom \<open>x \<ge> 3\<close>, stored as \<open>-x + 3 \<le> 0\<close>, over an integer \<open>x\<close> of value 0 with the
  lower bound 5 (the state after \<^verbatim>\<open>initialize\<close> on the unit literals \<open>x \<ge> 5\<close> and
  \<open>x \<ge> 3\<close>: the second does not lower the bound, and no value has moved yet).
\<close>

definition atom_ge3 :: ineq where
  "atom_ge3 = \<lparr>m_args = [(- 1, 0)], m_coeff = 3, m_op = LE, m_args_value = 0, m_var_to_flip = Some 0\<rparr>"

definition st_lo5 :: arith_base where
  "st_lo5 =
     (new_arith_base 0)
       \<lparr>m_bool_vars := [Some atom_ge3],
        m_vars := [(new_var_info 0 SORT_INT)
                    \<lparr>vi_bool_vars := [(- 1, 0)], m_lo := Some \<lparr>is_strict = False, bvalue = 5\<rparr>\<rparr>]\<rparr>"

text \<open>
  The atom \<open>2x + 3y = 7\<close>, stored as \<open>2x + 3y - 7 = 0\<close>, over integers \<open>x\<close> (variable 0)
  and \<open>y\<close> (variable 1) without bounds and of value 0; \<open>p\<close> is the pivot
  \<^verbatim>\<open>m_var_to_flip\<close> and \<open>d\<close> the value of every draw.
\<close>

definition atom_2x3y7 :: "nat \<Rightarrow> ineq" where
  "atom_2x3y7 p =
     \<lparr>m_args = [(2, 0), (3, 1)], m_coeff = - 7, m_op = EQ, m_args_value = 0, m_var_to_flip = Some p\<rparr>"

definition st_2x3y7 :: "nat \<Rightarrow> nat \<Rightarrow> arith_base" where
  "st_2x3y7 d p =
     (new_arith_base d)
       \<lparr>m_bool_vars := [Some (atom_2x3y7 p)],
        m_vars := [(new_var_info 0 SORT_INT)\<lparr>vi_bool_vars := [(2, 0)]\<rparr>,
                  (new_var_info 1 SORT_INT)\<lparr>vi_bool_vars := [(3, 0)]\<rparr>]\<rparr>"


text \<open>
  The term \<open>x mod y\<close> before \<^verbatim>\<open>mk_op\<close>: variable 0 is the fresh variable of the
  term, variable 1 is \<open>x\<close> with the value 5 and variable 2 is \<open>y\<close> with the value 0. No
  variable has a bound, and an expression has the number of its variable.
\<close>

definition st_xmody :: arith_base where
  "st_xmody =
     (new_arith_base 0)
       \<lparr>m_vars := [new_var_info 0 SORT_INT,
                  (new_var_info 1 SORT_INT)\<lparr>m_value := 5\<rparr>,
                  new_var_info 2 SORT_INT],
        m_expr2var := (\<lambda>e. if e < 3 then Some e else None)\<rparr>"


text \<open>
  The product \<open>v = 2 * x * y\<close> over integers: \<open>x\<close> and \<open>y\<close> are the variables 0 and 1 of
  value 0, \<open>v\<close> is variable 2 and was moved to 1. Every draw is 1.
\<close>

definition md_2xy :: mul_def where
  "md_2xy = \<lparr>mul_var = 2, mul_coeff = 2, m_monomial = [0, 1]\<rparr>"

definition st_2xy :: arith_base where
  "st_2xy =
     (new_arith_base 1)
       \<lparr>m_vars := [(new_var_info 0 SORT_INT)\<lparr>vi_muls := [0]\<rparr>,
                  (new_var_info 1 SORT_INT)\<lparr>vi_muls := [0]\<rparr>,
                  (new_var_info 2 SORT_INT)\<lparr>m_value := 1, vi_op := OP_MUL, m_def_idx := Some 0\<rparr>],
        m_muls := [md_2xy]\<rparr>"

subsection \<open>Notions used in the statements\<close>

text \<open>
  Changing the cached sum of an atom by \<open>d\<close> flips its truth value.
\<close>

definition flips_truth :: "ineq \<Rightarrow> num_t \<Rightarrow> bool" where
  "flips_truth i d = (is_true (i\<lparr>m_args_value := m_args_value i + d\<rparr>) \<noteq> is_true i)"

text \<open>
  From \<open>st\<close> to \<open>st'\<close> no bound has changed, and every variable has its old value or a
  value within its bounds.
\<close>

definition bounds_kept :: "arith_base \<Rightarrow> arith_base \<Rightarrow> bool" where
  "bounds_kept st st' =
     (length (m_vars st') = length (m_vars st)
      \<and> (\<forall>u < length (m_vars st).
            m_lo (m_vars st' ! u) = m_lo (m_vars st ! u)
          \<and> m_hi (m_vars st' ! u) = m_hi (m_vars st ! u)
          \<and> (m_value (m_vars st' ! u) = m_value (m_vars st ! u)
             \<or> in_bounds st u (m_value (m_vars st' ! u)))))"

declare sqrt_while.simps [code]

declare factor_while.simps [code]

declare factor_wheel.simps [simp del]

section \<open>Properties\<close>

subsection \<open>The numeric operations on the arguments the helpers meet\<close>

lemma div_int_pos: "0 \<le> a \<Longrightarrow> 0 < b \<Longrightarrow> div_int a b = a div b"
  by (cases "a = 0") (simp_all add: div_int_def)

lemma mod_int_pos: "0 < b \<Longrightarrow> mod_int a b = a mod b"
  by (simp add: mod_int_def)

lemma div_int_exact: 
  assumes "0 < d" "mod_int n d = 0" shows "d * div_int n d = n"
proof -
  from assms have dv: "d dvd n" by (simp add: mod_int_def dvd_eq_mod_eq_0)
  then obtain k where k: "n = d * k" by (auto simp: dvd_def)
  have "\<bar>n\<bar> div \<bar>d\<bar> = \<bar>k\<bar>" using assms k by (simp add: abs_mult)
  moreover have "sgn n = sgn k" using assms k by (simp add: sgn_mult)
  ultimately show ?thesis using assms k by (simp add: div_int_def mult.assoc mult_sgn_abs)
qed

lemma sqrt_step_upper:
  fixes n x :: int
  assumes "1 \<le> x" "0 \<le> n"
  shows "n < ((x + n div x) div 2 + 1) * ((x + n div x) div 2 + 1)"
proof -
  define q where "q = n div x"
  define y where "y = (x + q) div 2"
  have q0: "0 \<le> q" using assms by (simp add: q_def pos_imp_zdiv_nonneg_iff)
  have "n mod x < x" using assms by simp
  moreover have "n = x * q + n mod x" by (simp add: q_def)
  ultimately have nlt: "n < x * (q + 1)" by (simp add: algebra_simps)
  have y2: "x + q + 1 \<le> 2 * (y + 1)" unfolding y_def by presburger
  have pos: "0 \<le> x + q + 1" using assms q0 by simp
  have sq: "(x + q + 1) * (x + q + 1) \<le> (2 * (y + 1)) * (2 * (y + 1))"
    using y2 pos by (intro mult_mono) auto
  have id: "(x + q + 1) * (x + q + 1) = (x - q - 1) * (x - q - 1) + 4 * (x * (q + 1))"
    by (simp add: algebra_simps)
  have "0 \<le> (x - q - 1) * (x - q - 1)" by simp
  with id have "4 * (x * (q + 1)) \<le> (x + q + 1) * (x + q + 1)" by linarith
  with sq have "4 * (x * (q + 1)) \<le> 4 * ((y + 1) * (y + 1))" by (simp add: algebra_simps)
  then have "x * (q + 1) \<le> (y + 1) * (y + 1)" by simp
  with nlt show ?thesis by (simp add: y_def q_def)
qed

lemma sqrt_step_exit:
  fixes n x :: int
  assumes "1 \<le> x" "0 \<le> n" "\<not> (x + n div x) div 2 < x"
  shows "x * x \<le> n"
proof -
  define q where "q = n div x"
  from assms(3) have "\<not> (x + q) div 2 < x" by (simp add: q_def)
  then have "x \<le> q" by presburger
  then have "x * x \<le> x * q" using assms(1) by (intro mult_left_mono) auto
  moreover have "0 \<le> n mod x" using assms(1) by simp
  moreover have "n = x * q + n mod x" by (simp add: q_def)
  ultimately show ?thesis by linarith
qed

subsection \<open>The Newton iteration\<close>

lemma sqrt_next_Some: "x \<noteq> 0 \<Longrightarrow> sqrt_next n x = Some (div_int (x + div_int n x) 2)"
  by (simp add: sqrt_next_def)

lemma sqrt_step_div_int:
  assumes "1 \<le> x" "0 \<le> n"
  shows "div_int (x + div_int n x) 2 = (x + n div x) div 2"
proof -
  have "div_int n x = n div x" using assms by (simp add: div_int_pos)
  moreover have "0 \<le> n div x" using assms by (simp add: pos_imp_zdiv_nonneg_iff)
  ultimately show ?thesis using assms by (simp add: div_int_pos)
qed

lemma sqrt_while_correct:
  assumes "2 \<le> n" "1 \<le> x0" "n < (x0 + 1) * (x0 + 1)" "x1 = (x0 + n div x0) div 2"
  shows "\<exists>r. sqrt_while n x0 x1 = Some r \<and> r * r \<le> n \<and> n < (r + 1) * (r + 1)"
  using assms
proof (induction "nat x0" arbitrary: x0 x1 rule: less_induct)
  case less
  show ?case
  proof (cases "x1 < x0")
    case False
    then have "x0 * x0 \<le> n"
      using sqrt_step_exit[of x0 n] less.prems by simp
    moreover have "sqrt_while n x0 x1 = Some x0"
      using False by (subst sqrt_while.simps) simp
    ultimately show ?thesis using less.prems by simp
  next
    case True
    have up: "n < (x1 + 1) * (x1 + 1)"
      using sqrt_step_upper[of x0 n] less.prems by simp
    have x1nn: "0 \<le> x1" using less.prems by (simp add: pos_imp_zdiv_nonneg_iff)
    have x1: "1 \<le> x1"
    proof (rule ccontr)
      assume "\<not> 1 \<le> x1"
      with x1nn have "x1 = 0" by simp
      with up less.prems(1) show False by simp
    qed
    define x2 where "x2 = (x1 + n div x1) div 2"
    have nx: "sqrt_next n x1 = Some x2"
      using x1 less.prems(1) by (simp add: sqrt_next_Some sqrt_step_div_int x2_def)
    have "\<exists>r. sqrt_while n x1 x2 = Some r \<and> r * r \<le> n \<and> n < (r + 1) * (r + 1)"
      using less.hyps[of x1 x2] True x1 up less.prems(1) by (simp add: x2_def)
    moreover have "sqrt_while n x0 x1 = sqrt_while n x1 x2"
      using True nx by (subst sqrt_while.simps) simp
    ultimately show ?thesis by simp
  qed
qed

lemma sqrt_int_correct:
  assumes "0 \<le> n"
  shows "\<exists>r. sqrt_int n = Some r \<and> r * r \<le> n \<and> n < (r + 1) * (r + 1)"
proof (cases "n \<le> 1")
  case True
  with assms have "n = 0 \<or> n = 1" by auto
  then show ?thesis by (auto simp: sqrt_int_def)
next
  case False
  define x0 where "x0 = n div 2"
  have x0: "1 \<le> x0" using False unfolding x0_def by presburger
  have "n \<le> 2 * x0 + 1" unfolding x0_def by presburger
  moreover have "(x0 + 1) * (x0 + 1) = x0 * x0 + 2 * x0 + 1" by (simp add: algebra_simps)
  moreover have "1 \<le> x0 * x0" using x0 by (metis mult_mono' order_refl mult_1 zero_le_one)
  ultimately have up: "n < (x0 + 1) * (x0 + 1)" by linarith
  have d2: "div_int n 2 = x0" using False by (simp add: div_int_pos x0_def)
  have nx: "sqrt_next n x0 = Some ((x0 + n div x0) div 2)"
    using x0 False by (simp add: sqrt_next_Some sqrt_step_div_int)
  have "sqrt_int n = sqrt_while n x0 ((x0 + n div x0) div 2)"
    using False by (simp add: sqrt_int_def d2 nx)
  then show ?thesis
    using sqrt_while_correct[of n x0 "(x0 + n div x0) div 2"] False x0 up by simp
qed


subsection \<open>The factoring loops\<close>

lemma factor_while_nonzero:
  assumes "factor_while d n fs = Some y" shows "n \<noteq> 0"
  using assms
proof (rule factor_while.raw_induct[rotated, where P="\<lambda>d n fs y. n \<noteq> 0"])
  fix f :: "int \<Rightarrow> int \<Rightarrow> int list \<Rightarrow> (int \<times> int list) option" and d n fs y
  assume IH: "\<And>d n fs y. f d n fs = Some y \<Longrightarrow> n \<noteq> 0"
    and eq: "(if mod_int n d = 0 then f d (div_int n d) (fs @ [d]) else Some (n, fs)) = Some y"
  show "n \<noteq> 0"
  proof
    assume "n = 0"
    with eq have "f d 0 (fs @ [d]) = Some y" by (simp add: mod_int_def div_int_def)
    from IH[OF this] show False by simp
  qed
qed

lemma factor_while_zero: "factor_while d 0 fs = None"
  using factor_while_nonzero[of d 0 fs] by (cases "factor_while d 0 fs") auto

lemma div_int_smaller:
  assumes "2 \<le> d" "n \<noteq> 0" "mod_int n d = 0"
  shows "div_int n d \<noteq> 0" "\<bar>div_int n d\<bar> < \<bar>n\<bar>" "0 < n \<Longrightarrow> 0 < div_int n d"
proof -
  define q where "q = div_int n d"
  have e: "d * q = n" unfolding q_def using assms by (intro div_int_exact) auto
  show nz: "q \<noteq> 0" using e assms(2) by auto
  have "\<bar>n\<bar> = d * \<bar>q\<bar>" using e assms(1) by (simp add: abs_mult flip: e)
  moreover have "1 \<le> \<bar>q\<bar>" using nz by simp
  moreover have "2 * \<bar>q\<bar> \<le> d * \<bar>q\<bar>" using assms(1) by (intro mult_right_mono) auto
  ultimately show "\<bar>q\<bar> < \<bar>n\<bar>" by linarith
  show "0 < q" if "0 < n"
  proof (rule ccontr)
    assume "\<not> 0 < q"
    then have "q \<le> 0" by simp
    then have "d * q \<le> 0" using assms(1) by (simp add: mult_le_0_iff)
    with e that show False by simp
  qed
qed

lemma factor_while_returns:
  assumes "2 \<le> d" "n \<noteq> 0"
  shows "\<exists>n' fs'. factor_while d n fs = Some (n', fs') \<and> n' \<noteq> 0 \<and> (0 < n \<longrightarrow> 0 < n')
           \<and> prod_list fs' * n' = prod_list fs * n"
  using assms
proof (induction "nat \<bar>n\<bar>" arbitrary: n fs rule: less_induct)
  case less
  show ?case
  proof (cases "mod_int n d = 0")
    case False
    then have "factor_while d n fs = Some (n, fs)" by (subst factor_while.simps) simp
    then show ?thesis using less.prems by simp
  next
    case True
    note sm = div_int_smaller[OF less.prems(1) less.prems(2) True]
    have step: "factor_while d n fs = factor_while d (div_int n d) (fs @ [d])"
      using True by (subst factor_while.simps) simp
    have "nat \<bar>div_int n d\<bar> < nat \<bar>n\<bar>" using sm(2) by simp
    from less.hyps[OF this less.prems(1) sm(1), of "fs @ [d]"]
    obtain n' fs' where r: "factor_while d (div_int n d) (fs @ [d]) = Some (n', fs')" "n' \<noteq> 0"
      "0 < div_int n d \<longrightarrow> 0 < n'" "prod_list fs' * n' = prod_list (fs @ [d]) * div_int n d"
      by blast
    have "d * div_int n d = n" using less.prems True by (intro div_int_exact) auto
    then have "prod_list (fs @ [d]) * div_int n d = prod_list fs * n" by (simp add: mult.assoc)
    then show ?thesis using r sm(3) step by auto
  qed
qed

lemma factor_wheel_returns:
  assumes "2 \<le> d" "i \<le> 8" "n \<noteq> 0"
  shows "\<exists>n' fs'. factor_wheel d i j n fs = Some (n', fs') \<and> n' \<noteq> 0 \<and> (0 < n \<longrightarrow> 0 < n')
           \<and> prod_list fs' * n' = prod_list fs * n"
  using assms
proof (induction d i j n fs rule: factor_wheel.induct)
  case (1 d i j n fs)
  show ?case
  proof (cases "d * d \<le> n \<and> j < 3")
    case False
    then have "factor_wheel d i j n fs = Some (n, fs)"
      by (subst factor_wheel.simps) (simp only: if_False)
    then show ?thesis using "1.prems" by simp
  next
    case True
    from factor_while_returns[OF "1.prems"(1) "1.prems"(3), of fs]
    obtain n1 f1 where w: "factor_while d n fs = Some (n1, f1)" "n1 \<noteq> 0" "0 < n \<longrightarrow> 0 < n1"
      "prod_list f1 * n1 = prod_list fs * n" by blast
    define i' where "i' = (if i = 8 then 0 else i)"
    have i': "i' < 8" using "1.prems"(2) by (simp add: i'_def)
    then have len: "i' < length increments" by (simp add: increments_def)
    have "increments ! i' \<in> set increments" using len by simp
    then have inc: "0 < increments ! i'" by (auto simp: increments_def)
    have "\<exists>n' fs'. factor_wheel (d + increments ! i') (i' + 1) (j + 1) n1 f1 = Some (n', fs') \<and> n' \<noteq> 0
        \<and> (0 < n1 \<longrightarrow> 0 < n') \<and> prod_list fs' * n' = prod_list f1 * n1"
      using "1.IH"[OF True w(1) refl i'_def len] "1.prems"(1) inc i' w(2) by simp
    moreover have "factor_wheel d i j n fs = factor_wheel (d + increments ! i') (i' + 1) (j + 1) n1 f1"
      using True w(1) len by (subst factor_wheel.simps) (simp add: i'_def Let_def)
    ultimately show ?thesis using w by auto
  qed
qed

lemma factor_returns:
  assumes "n \<noteq> 0"
  shows "\<exists>fs. factor n = Some fs \<and> (0 < n \<longrightarrow> prod_list fs = n)"
proof -
  from factor_while_returns[of 2 n "[]"] assms
  obtain n2 f2 where a: "factor_while 2 n [] = Some (n2, f2)" "n2 \<noteq> 0" "0 < n \<longrightarrow> 0 < n2"
    "prod_list f2 * n2 = n" by auto
  from factor_while_returns[of 3 n2 f2] a
  obtain n3 f3 where b: "factor_while 3 n2 f2 = Some (n3, f3)" "n3 \<noteq> 0" "0 < n2 \<longrightarrow> 0 < n3"
    "prod_list f3 * n3 = n" by auto
  from factor_while_returns[of 5 n3 f3] b
  obtain n5 f5 where c: "factor_while 5 n3 f3 = Some (n5, f5)" "n5 \<noteq> 0" "0 < n3 \<longrightarrow> 0 < n5"
    "prod_list f5 * n5 = n" by auto
  from factor_wheel_returns[of 7 0 n5 0 f5] c
  obtain n' fs where d: "factor_wheel 7 0 0 n5 f5 = Some (n', fs)" "n' \<noteq> 0" "0 < n5 \<longrightarrow> 0 < n'"
    "prod_list fs * n' = n" by auto
  have f: "factor n = Some (if n' > 1 then fs @ [n'] else fs)"
    by (simp add: factor_def a(1) b(1) c(1) d(1))
  have "prod_list (if n' > 1 then fs @ [n'] else fs) = n" if "0 < n"
  proof (cases "n' > 1")
    case True then show ?thesis using d(4) by simp
  next
    case False
    moreover have "0 < n'" using that a b c d by simp
    ultimately have "n' = 1" by simp
    then show ?thesis using d(4) by simp
  qed
  with f show ?thesis by auto
qed

lemma factor_zero: "factor 0 = None"
  by (simp add: factor_def factor_while_zero)


subsection \<open>Critical moves\<close>

lemma well_formed_flips:
  "well_formed st i v coeff nv = flips_truth i (coeff * (nv - value_of st v))"
  by (cases "m_op i") (auto simp: well_formed_def flips_truth_def is_true_def Let_def)

lemma move_to_bounds_flag:
  "move_to_bounds st i v coeff nv0 = Some (b, nv) \<Longrightarrow>
     b = (well_formed st i v coeff nv \<and> (in_bounds st v nv \<or> \<not> in_bounds st v (value_of st v)))"
  by (auto simp: move_to_bounds_def Let_def split: if_splits)

lemma ctx_rand_vars [simp]: "m_vars (snd (ctx_rand n st)) = m_vars st"
  by (simp add: ctx_rand_def ctx_rand_raw_def)

lemma ctx_rand_raw_vars [simp]: "m_vars (snd (ctx_rand_raw st)) = m_vars st"
  by (simp add: ctx_rand_raw_def)

lemma same_vars:
  assumes "m_vars st' = m_vars st"
  shows "value_of st' = value_of st" "in_bounds st' = in_bounds st" "is_fixed st' = is_fixed st"
    "is_int st' = is_int st" "well_formed st' = well_formed st" "move_to_bounds st' = move_to_bounds st"
    "divide st' = divide st"
proof -
  show v: "value_of st' = value_of st" by (simp add: fun_eq_iff value_of_def assms)
  show b: "in_bounds st' = in_bounds st" by (simp add: fun_eq_iff in_bounds_def assms)
  show "is_fixed st' = is_fixed st" unfolding fun_eq_iff is_fixed_def v assms by simp
  show n: "is_int st' = is_int st" by (simp add: fun_eq_iff is_int_def assms)
  show w: "well_formed st' = well_formed st" unfolding fun_eq_iff well_formed_def v by simp
  show "move_to_bounds st' = move_to_bounds st"
    unfolding fun_eq_iff move_to_bounds_def w v b assms by simp
  show "divide st' = divide st" unfolding fun_eq_iff divide_def n by simp
qed

lemmas ctx_rand_same [simp] = same_vars[OF ctx_rand_vars]

lemma cm_coeff_result:
  assumes "cm_coeff st i v coeff nv0 = Some ((b, nv), st')"
  shows "m_vars st' = m_vars st"
    and "is_fixed st v \<Longrightarrow> \<not> b \<and> nv = nv0"
    and "\<not> is_fixed st v \<Longrightarrow>
      b = (well_formed st i v coeff nv \<and> (in_bounds st v nv \<or> \<not> in_bounds st v (value_of st v)))"
proof -
  show "m_vars st' = m_vars st"
    using assms
    by (auto simp: cm_coeff_def Let_def with_state_def case_prod_beta split: if_splits ineq_kind.splits)
  show "\<not> b \<and> nv = nv0" if "is_fixed st v"
    using assms that by (auto simp: cm_coeff_def Let_def split: if_splits)
  show "b = (well_formed st i v coeff nv \<and> (in_bounds st v nv \<or> \<not> in_bounds st v (value_of st v)))"
    if nf: "\<not> is_fixed st v"
  proof (cases "is_true i")
    case True
    show ?thesis
    proof (cases "m_op i")
      case EQ
      with True nf assms show ?thesis
        by (auto simp: cm_coeff_def Let_def with_state_def case_prod_beta split: if_splits
            dest!: move_to_bounds_flag)
    next
      case LE
      with True nf assms show ?thesis
        by (auto simp: cm_coeff_def Let_def with_state_def case_prod_beta split: if_splits
            dest!: move_to_bounds_flag)
    next
      case LT
      with True nf assms show ?thesis
        by (auto simp: cm_coeff_def Let_def with_state_def case_prod_beta split: if_splits
            dest!: move_to_bounds_flag)
    qed
  next
    case False
    show ?thesis
    proof (cases "m_op i")
      case EQ
      define nvi where "nvi =
        (if m_args_value i - - m_coeff i < 0
         then value_of st v + divide st v \<bar>m_args_value i - - m_coeff i\<bar> coeff
         else value_of st v - divide st v (m_args_value i - - m_coeff i) coeff)"
      have pre: "v < length (m_vars st)" "coeff \<noteq> 0"
        using assms nf by (auto simp: cm_coeff_def split: if_splits)
      define solved where "solved = (m_args_value i + coeff * (nvi - value_of st v) = - m_coeff i)"
      have eq: "cm_coeff st i v coeff nv0 =
          (if solved then with_state st (move_to_bounds st i v coeff nvi) else Some ((False, nvi), st))"
        using EQ False nf pre
        by (simp add: cm_coeff_def Let_def nvi_def solved_def)
      show ?thesis
      proof (cases solved)
        case True
        with eq assms have "move_to_bounds st i v coeff nvi = Some (b, nv)"
          by (cases "move_to_bounds st i v coeff nvi") (auto simp: with_state_def)
        then show ?thesis by (rule move_to_bounds_flag)
      next
        case ns: False
        with eq assms have "\<not> b" "nv = nvi" by auto
        moreover have "\<not> well_formed st i v coeff nvi"
          using ns EQ False by (simp add: well_formed_def solved_def)
        ultimately show ?thesis by simp
      qed
    next
      case LE
      with False nf assms show ?thesis
        by (auto simp: cm_coeff_def Let_def with_state_def case_prod_beta split: if_splits
            dest!: move_to_bounds_flag)
    next
      case LT
      with False nf assms show ?thesis
        by (auto simp: cm_coeff_def Let_def with_state_def case_prod_beta split: if_splits
            dest!: move_to_bounds_flag)
    qed
  qed
qed

subsection \<open>update and the bounds\<close>


lemma bounds_kept_same_vars: "m_vars st' = m_vars st \<Longrightarrow> bounds_kept st st'"
  by (simp add: bounds_kept_def)







text \<open>
  For a variable with both bounds, \<^verbatim>\<open>in_bounds\<close> is the two comparisons, strict for a
  strict bound. The functions that set a bound write no value.
\<close>

lemma in_bounds_both:
  assumes "m_lo (m_vars st ! v) = Some l" "m_hi (m_vars st ! v) = Some h"
  shows "in_bounds st v x =
           ((if is_strict l then bvalue l < x else bvalue l \<le> x)
          \<and> (if is_strict h then x < bvalue h else x \<le> bvalue h))"
  using assms by (auto simp: in_bounds_def Let_def)











subsection \<open>Pairs of variables: a pivot of value zero\<close>

lemma value_of_rand_raw [simp]: "value_of (snd (ctx_rand_raw st)) = value_of st"
  by (simp add: fun_eq_iff value_of_def)

lemma solve_eq_pairs_xy_zero:
  assumes "value_of st x = 0" "x < length (m_vars st)" "y < length (m_vars st)"
  shows "solve_eq_pairs_xy G fuel st a x b y r = Some (False, st)"
proof -
  have stab: "x4 = value_of st x \<or> \<bar>value_of st x\<bar> * 2 < \<bar>x4\<bar>" for x4 :: rat
    using assms(1) by auto
  show ?thesis
    unfolding solve_eq_pairs_xy_def Let_def
    using assms(2,3) stab
    by (auto split: prod.splits)
qed

lemma solve_eq_pairs_loop_zero:
  assumes "value_of st v = 0" "v < length (m_vars st)"
    "\<forall>j \<in> set js. snd (m_args i ! j) < length (m_vars st)"
  shows "solve_eq_pairs_loop G fuel st i v a argsv js = Some (False, st)"
  using assms(3)
proof (induction js arbitrary: argsv)
  case Nil
  then show ?case by simp
next
  case (Cons j js)
  have "solve_eq_pairs_xy G fuel st a v b (snd (m_args i ! j)) r = Some (False, st)" for b r
    using Cons.prems assms(1,2) by (intro solve_eq_pairs_xy_zero) auto
  then show ?case using Cons by (simp add: Let_def)
qed

lemma solve_eq_pairs_pivot_zero:
  assumes "m_var_to_flip i = Some v" "v < length (m_vars st)" "value_of st v = 0"
    "\<forall>cw \<in> set (m_args i). snd cw < length (m_vars st)"
  shows "solve_eq_pairs G fuel st i =
     Some (False,
       if is_fixed st v \<or> \<bar>fold (\<lambda>cw a. if v = snd cw then fst cw else a) (m_args i) 0\<bar> = 1
       then st else snd (ctx_rand_raw st))"
proof -
  let ?st1 = "snd (ctx_rand_raw st)"
  have "solve_eq_pairs_loop G fuel ?st1 i v a argsv
          (map (\<lambda>k. (start + k) mod length (m_args i)) [0..<length (m_args i)]) = Some (False, ?st1)"
    for a argsv start
  proof (rule solve_eq_pairs_loop_zero)
    show "value_of ?st1 v = 0" using assms(3) by simp
    show "v < length (m_vars ?st1)" using assms(2) by simp
    show "\<forall>j\<in>set (map (\<lambda>k. (start + k) mod length (m_args i)) [0..<length (m_args i)]).
        snd (m_args i ! j) < length (m_vars ?st1)"
    proof
      fix j assume "j \<in> set (map (\<lambda>k. (start + k) mod length (m_args i)) [0..<length (m_args i)])"
      then obtain k where "k < length (m_args i)" "j = (start + k) mod length (m_args i)" by auto
      moreover from this have "0 < length (m_args i)" by auto
      ultimately have "j < length (m_args i)" using mod_less_divisor by blast
      then have "m_args i ! j \<in> set (m_args i)" by simp
      with assms(4) show "snd (m_args i ! j) < length (m_vars ?st1)" by simp
    qed
  qed
  then show ?thesis
    using assms(1,2) by (simp add: solve_eq_pairs_def Let_def case_prod_beta)
qed

subsection \<open>The last branch of the repair of a product\<close>

lemma factor_num_zero: "factor_num 0 = None"
  by (simp add: factor_num_def factor_zero)

lemma st_2xy_path:
  "mul_prod st_2xy md_2xy \<noteq> value_of st_2xy (mul_var md_2xy)"
  "fst (ctx_rand 20 st_2xy) \<noteq> 0"
  "value_of st_2xy (mul_var md_2xy) \<noteq> 0"
  "repair_square fuel (snd (ctx_rand 20 st_2xy)) md_2xy = Some (False, snd (ctx_rand 20 st_2xy))"
  "fst (ctx_rand 4 (snd (ctx_rand 20 st_2xy))) \<noteq> 0"
proof -
  show "mul_prod st_2xy md_2xy \<noteq> value_of st_2xy (mul_var md_2xy)" by code_simp
  show "fst (ctx_rand 20 st_2xy) \<noteq> 0" by code_simp
  show "value_of st_2xy (mul_var md_2xy) \<noteq> 0" by code_simp
  show "repair_square fuel (snd (ctx_rand 20 st_2xy)) md_2xy = Some (False, snd (ctx_rand 20 st_2xy))"
    by (simp add: repair_square_def md_2xy_def)
  show "fst (ctx_rand 4 (snd (ctx_rand 20 st_2xy))) \<noteq> 0" by code_simp
qed

lemma st_2xy_mul1:
  "repair_mul1 fuel (snd (ctx_rand 4 (snd (ctx_rand 20 st_2xy)))) md_2xy
     = Some (False, snd (ctx_rand 4 (snd (ctx_rand 20 st_2xy))))"
proof -
  have i: "is_int st_2xy (mul_var md_2xy)" by code_simp
  have c: "mul_coeff md_2xy \<noteq> 0" by code_simp
  have v: "div_num (value_of st_2xy (mul_var md_2xy)) (mul_coeff md_2xy) = 0"
    by code_simp
  show ?thesis by (simp add: repair_mul1_def Let_def i c v)
qed

lemma st_2xy_n:
  "is_int st_2xy (mul_var md_2xy)"
  "mul_coeff md_2xy \<noteq> 0"
  "fst (repair_mul_n (snd (ctx_rand 4 (snd (ctx_rand 20 st_2xy)))) (value_of st_2xy (mul_var md_2xy))
         (mul_coeff md_2xy)) = 0"
  by code_simp+

lemma repair_mul_st_2xy: "repair_mul fuel st_2xy md_2xy = None"
  unfolding repair_mul_def Let_def case_prod_beta
  using st_2xy_path(1,2,3,5)
  by (simp add: st_2xy_path(4) st_2xy_mul1 st_2xy_n factor_num_zero)

subsection \<open>Claims about the pure helpers\<close>

text \<open>
  C6 (amended). For every atom and both target signs, \<^verbatim>\<open>dtt\<close> is the table of the
  specification, except for the entry of \<open><\<close> with sign false: the code answers \<open>0\<close> when
  \<open>args_value + k < 0\<close> and \<open>args_value + k + 1\<close> otherwise. That entry is
  \<open>max(0, args_value + k + 1)\<close> when \<open>args_value + k\<close> is an integer, and differs from it
  for a rational strictly between \<open>-1\<close> and \<open>0\<close>.
\<close>

theorem dtt_table:
  "dtt False i =
     (case m_op i of
        LE \<Rightarrow> max 0 (m_args_value i + m_coeff i)
      | LT \<Rightarrow> (if m_args_value i + m_coeff i < 0 then 0 else m_args_value i + m_coeff i + 1)
      | EQ \<Rightarrow> (if m_args_value i + m_coeff i = 0 then 0 else 1))
   \<and> dtt True i =
     (case m_op i of
        LE \<Rightarrow> (if m_args_value i + m_coeff i > 0 then 0 else - m_coeff i - m_args_value i + 1)
      | LT \<Rightarrow> (if m_args_value i + m_coeff i \<ge> 0 then 0 else - m_coeff i - m_args_value i)
      | EQ \<Rightarrow> (if m_args_value i + m_coeff i \<noteq> 0 then 0 else 1))
   \<and> (m_op i = LT \<and> m_args_value i + m_coeff i \<in> \<int>
        \<longrightarrow> dtt False i = max 0 (m_args_value i + m_coeff i + 1))"
proof (intro conjI impI)
  show "dtt False i =
     (case m_op i of
        LE \<Rightarrow> max 0 (m_args_value i + m_coeff i)
      | LT \<Rightarrow> (if m_args_value i + m_coeff i < 0 then 0 else m_args_value i + m_coeff i + 1)
      | EQ \<Rightarrow> (if m_args_value i + m_coeff i = 0 then 0 else 1))"
    by (cases "m_op i") (simp_all add: dtt_def dtt_args_def max_def)
  show "dtt True i =
     (case m_op i of
        LE \<Rightarrow> (if m_args_value i + m_coeff i > 0 then 0 else - m_coeff i - m_args_value i + 1)
      | LT \<Rightarrow> (if m_args_value i + m_coeff i \<ge> 0 then 0 else - m_coeff i - m_args_value i)
      | EQ \<Rightarrow> (if m_args_value i + m_coeff i \<noteq> 0 then 0 else 1))"
    by (cases "m_op i") (auto simp: dtt_def dtt_args_def)
  assume a: "m_op i = LT \<and> m_args_value i + m_coeff i \<in> \<int>"
  then obtain z :: int where z: "m_args_value i + m_coeff i = of_int z"
    by (auto elim: Ints_cases)
  have "(of_int z :: rat) < 0 \<longleftrightarrow> (of_int (z + 1) :: rat) \<le> 0"
    unfolding of_int_less_0_iff of_int_le_0_iff by presburger
  then show "dtt False i = max 0 (m_args_value i + m_coeff i + 1)"
    using a z by (auto simp: dtt_def dtt_args_def max_def)
qed

theorem dtt_table_witness:
  "m_op \<lparr>m_args = [(1, 0)], m_coeff = 2, m_op = LT, m_args_value = -5, m_var_to_flip = None\<rparr> = LT
   \<and> (-5 + 2 :: rat) \<in> \<int>
   \<and> dtt False \<lparr>m_args = [(1, 0)], m_coeff = 2, m_op = LT, m_args_value = -5, m_var_to_flip = None\<rparr>
       = max 0 (-5 + 2 + 1)"
  using dtt_table[of "\<lparr>m_args = [(1, 0)], m_coeff = 2, m_op = LT, m_args_value = -5, m_var_to_flip = None\<rparr>"]
  by simp

text \<open>
  The entry of the specification fails on the atom \<open>x < 0\<close> over a real \<open>x\<close> of value
  \<open>-1/2\<close>: the atom is true and the code answers \<open>0\<close>, the table \<open>1/2\<close>.
\<close>

theorem dtt_table_counterexample:
  "dtt False \<lparr>m_args = [(1, 0)], m_coeff = 0, m_op = LT, m_args_value = - (1 / 2), m_var_to_flip = None\<rparr>
     \<noteq> max 0 (- (1 / 2) + 0 + 1)"
  by (simp add: dtt_def dtt_args_def)

text \<open>
  C7. \<^verbatim>\<open>factor(n)\<close> returns a list of product \<open>n = |n|\<close> for every \<open>n \<ge> 1\<close>, and returns
  nothing for \<open>n = 0\<close>, where \<open>mod(0, 2) = 0\<close> holds for ever. \<^verbatim>\<open>repair_mul\<close> calls
  \<^verbatim>\<open>factor(abs(n))\<close> with \<open>n = 0\<close> for \<open>v = 2 * x * y\<close> with \<open>value(v) = 1\<close>.
\<close>

theorem factor_product:
  "(1 \<le> n \<longrightarrow> (\<exists>fs. factor n = Some fs \<and> prod_list fs = \<bar>n\<bar>))
   \<and> factor \<bar>0\<bar> = None
   \<and> factor_num \<bar>fst (repair_mul_n (snd (ctx_rand 4 (snd (ctx_rand 20 st_2xy))))
                        (value_of st_2xy (mul_var md_2xy)) (mul_coeff md_2xy))\<bar> = None"
proof (intro conjI impI)
  assume "1 \<le> n"
  then show "\<exists>fs. factor n = Some fs \<and> prod_list fs = \<bar>n\<bar>"
    using factor_returns[of n] by auto
next
  show "factor \<bar>0\<bar> = None" by (simp add: factor_zero)
  show "factor_num \<bar>fst (repair_mul_n (snd (ctx_rand 4 (snd (ctx_rand 20 st_2xy))))
                        (value_of st_2xy (mul_var md_2xy)) (mul_coeff md_2xy))\<bar> = None"
    by (simp only: st_2xy_n(3) abs_zero factor_num_zero)
qed

theorem factor_product_witness:
  "(1::int) \<le> 360 \<and> (\<exists>fs. factor 360 = Some fs \<and> prod_list fs = \<bar>360\<bar>)"
  using factor_product[of 360, THEN conjunct1] by simp

text \<open>
  C8. For every integer \<open>n \<ge> 0\<close>, \<^verbatim>\<open>sqrt(n)\<close> returns \<open>r\<close> with
  \<open>r\<^sup>2 \<le> n < (r + 1)\<^sup>2\<close>.
\<close>

theorem sqrt_bounds:
  "0 \<le> n \<Longrightarrow> \<exists>r. sqrt_int n = Some r \<and> r * r \<le> n \<and> n < (r + 1) * (r + 1)"
  by (rule sqrt_int_correct)

theorem sqrt_bounds_witness:
  "(0::int) \<le> 10 \<and> (\<exists>r. sqrt_int 10 = Some r \<and> r * r \<le> 10 \<and> 10 < (r + 1) * (r + 1))"
  using sqrt_bounds[of 10] by simp

subsection \<open>Claims about the engine\<close>

text \<open>
  C1. The claim: after \<^verbatim>\<open>update(v, n)\<close> returns, every sum and every product satisfies
  its definition. The code misses it: in the loop over \<^verbatim>\<open>vi.m_adds\<close> the new sum is
  compared with the constant \<^verbatim>\<open>ad.m_coeff\<close> of the definition and not with the value
  of its result (the loop over \<^verbatim>\<open>vi.m_muls\<close> compares with \<^verbatim>\<open>value(w)\<close>, and
  \<^verbatim>\<open>invariant()\<close> asserts \<^verbatim>\<open>sum == value(ad.m_var)\<close>). For \<open>r = x + 5\<close> with
  \<open>x = 3\<close> and \<open>r = 8\<close> the invariant holds; \<^verbatim>\<open>update(x, 0)\<close> returns true and leaves
  \<open>r = 8\<close>, since the new sum 5 equals the constant.
\<close>

theorem update_skips_sum:
  "invariant st_sum
   \<and> (case update 3 st_sum 0 0 of
        None \<Rightarrow> False
      | Some (b, s) \<Rightarrow> b \<and> value_of s 0 = 0 \<and> value_of s 1 = 8 \<and> \<not> invariant s)"
  by code_simp

text \<open>
  C2 (amended). For the atom \<open>2x + 3y = 7\<close> over integers without bounds, from
  \<open>x = y = 0\<close>, \<^verbatim>\<open>solve_eq_pairs\<close> returns false and moves no variable, whichever of
  the two is the pivot, whatever B\'ezout coefficients the gcd returns and whatever the
  draw: the pivot has the value 0, so a candidate \<open>x0 = 0\<close> is rejected as no move and any
  other by the test \<open>|value(x)| * 2 < |x0|\<close>. The state after the call is the state before
  it with one random draw consumed.
\<close>

theorem solve_eq_pairs_2x3y7:
  assumes "p < 2"
  shows "solve_eq_pairs G fuel (st_2x3y7 d p) (atom_2x3y7 p)
           = Some (False, snd (ctx_rand_raw (st_2x3y7 d p)))
       \<and> value_of (snd (ctx_rand_raw (st_2x3y7 d p))) 0 = 0
       \<and> value_of (snd (ctx_rand_raw (st_2x3y7 d p))) 1 = 0"
proof -
  have p: "p = 0 \<or> p = 1" using assms by auto
  have v: "value_of (st_2x3y7 d p) 0 = 0" "value_of (st_2x3y7 d p) 1 = 0"
    by (simp_all add: value_of_def st_2x3y7_def new_arith_base_def new_var_info_def)
  have len: "length (m_vars (st_2x3y7 d p)) = 2"
    by (simp add: st_2x3y7_def new_arith_base_def)
  have nf: "\<not> is_fixed (st_2x3y7 d p) p"
    using p by (auto simp: is_fixed_def st_2x3y7_def new_arith_base_def new_var_info_def)
  have a: "\<bar>fold (\<lambda>cw a. if p = snd cw then fst cw else a) (m_args (atom_2x3y7 p)) (0::rat)\<bar> \<noteq> 1"
    using p by (auto simp: atom_2x3y7_def)
  have "solve_eq_pairs G fuel (st_2x3y7 d p) (atom_2x3y7 p) =
     Some (False,
       if is_fixed (st_2x3y7 d p) p
          \<or> \<bar>fold (\<lambda>cw a. if p = snd cw then fst cw else a) (m_args (atom_2x3y7 p)) 0\<bar> = 1
       then st_2x3y7 d p else snd (ctx_rand_raw (st_2x3y7 d p)))"
  proof (rule solve_eq_pairs_pivot_zero)
    show "m_var_to_flip (atom_2x3y7 p) = Some p" by (simp add: atom_2x3y7_def)
    show "p < length (m_vars (st_2x3y7 d p))" using assms len by simp
    show "value_of (st_2x3y7 d p) p = 0" using p v by auto
    show "\<forall>cw\<in>set (m_args (atom_2x3y7 p)). snd cw < length (m_vars (st_2x3y7 d p))"
      by (simp add: len atom_2x3y7_def)
  qed
  then show ?thesis using v nf a by simp
qed

theorem solve_eq_pairs_2x3y7_witness:
  "(0::nat) < 2
   \<and> solve_eq_pairs gcd_bezout 5 (st_2x3y7 0 0) (atom_2x3y7 0)
           = Some (False, snd (ctx_rand_raw (st_2x3y7 0 0)))
   \<and> value_of (snd (ctx_rand_raw (st_2x3y7 0 0))) 0 = 0
   \<and> value_of (snd (ctx_rand_raw (st_2x3y7 0 0))) 1 = 0"
  using solve_eq_pairs_2x3y7[of 0 gcd_bezout 5 0] by simp

text \<open>The claimed success, at the extended Euclidean algorithm and the pivot \<open>x\<close>.\<close>

theorem solve_eq_pairs_2x3y7_counterexample:
  "(case solve_eq_pairs gcd_bezout 5 (st_2x3y7 0 0) (atom_2x3y7 0) of
      None \<Rightarrow> False
    | Some (b, s) \<Rightarrow> \<not> b \<and> value_of s 0 = 0 \<and> value_of s 1 = 0
        \<and> 2 * value_of s 0 + 3 * value_of s 1 \<noteq> 7)"
  by code_simp

text \<open>
  C3 (amended). When \<^verbatim>\<open>cm(ineq, v, coeff, new_value)\<close> returns, it returns true if and
  only if \<open>v\<close> is not fixed, moving \<open>v\<close> from its value to the final \<open>new_value\<close> flips the
  truth value of the atom, and the final \<open>new_value\<close> lies within the bounds of \<open>v\<close> or
  the current value of \<open>v\<close> lies outside them (then the move is accepted without a look
  at the bounds). For a fixed variable \<^verbatim>\<open>cm\<close> returns false and leaves
  \<open>new_value\<close> as it was.
\<close>

theorem cm_success:
  "(cm_coeff st i v coeff nv0 = Some ((b, nv), st') \<longrightarrow>
      b = (\<not> is_fixed st v
           \<and> flips_truth i (coeff * (nv - value_of st v))
           \<and> (in_bounds st v nv \<or> \<not> in_bounds st v (value_of st v))))
   \<and> (v < length (m_vars st) \<and> is_fixed st v \<longrightarrow>
        cm_coeff st i v coeff nv0 = Some ((False, nv0), st))"
proof (intro conjI impI)
  assume r: "cm_coeff st i v coeff nv0 = Some ((b, nv), st')"
  show "b = (\<not> is_fixed st v
           \<and> flips_truth i (coeff * (nv - value_of st v))
           \<and> (in_bounds st v nv \<or> \<not> in_bounds st v (value_of st v)))"
    using cm_coeff_result(2,3)[OF r] by (cases "is_fixed st v") (auto simp: well_formed_flips)
next
  assume "v < length (m_vars st) \<and> is_fixed st v"
  then show "cm_coeff st i v coeff nv0 = Some ((False, nv0), st)"
    by (simp add: cm_coeff_def)
qed

lemma cm_coeff_st_lo5:
  "\<exists>s. cm_coeff st_lo5 atom_ge3 0 (- 1) 0 = Some ((True, 3), s)"
proof -
  have "(case cm_coeff st_lo5 atom_ge3 0 (- 1) 0 of
           None \<Rightarrow> False
         | Some ((b, nv), s) \<Rightarrow> b \<and> nv = 3)"
    by code_simp
  then show ?thesis by (auto split: option.splits)
qed

theorem cm_success_witness:
  "(\<exists>s. cm_coeff st_lo5 atom_ge3 0 (- 1) 0 = Some ((True, 3), s))
   \<and> True = (\<not> is_fixed st_lo5 0
           \<and> flips_truth atom_ge3 (- 1 * (3 - value_of st_lo5 0))
           \<and> (in_bounds st_lo5 0 3 \<or> \<not> in_bounds st_lo5 0 (value_of st_lo5 0)))
   \<and> 0 < length (m_vars st_fixed) \<and> is_fixed st_fixed 0
   \<and> cm_coeff st_fixed atom_ge3 0 (- 1) 7 = Some ((False, 7), st_fixed)"
proof -
  have f: "0 < length (m_vars st_fixed) \<and> is_fixed st_fixed 0"
    by (simp add: st_fixed_def new_arith_base_def new_var_info_def is_fixed_def value_of_def)
  from cm_coeff_st_lo5 obtain s where s: "cm_coeff st_lo5 atom_ge3 0 (- 1) 0 = Some ((True, 3), s)"
    by blast
  from cm_success[of st_lo5 atom_ge3 0 "- 1" 0 True 3 s] s
  have 1: "True = (\<not> is_fixed st_lo5 0
           \<and> flips_truth atom_ge3 (- 1 * (3 - value_of st_lo5 0))
           \<and> (in_bounds st_lo5 0 3 \<or> \<not> in_bounds st_lo5 0 (value_of st_lo5 0)))"
    by blast
  from cm_success[of st_fixed atom_ge3 0 "- 1" 7] f
  have 2: "cm_coeff st_fixed atom_ge3 0 (- 1) 7 = Some ((False, 7), st_fixed)"
    by blast
  from 1 2 f s show ?thesis by blast
qed

text \<open>
  The claimed equivalence fails on the atom \<open>x \<ge> 3\<close> over an integer \<open>x\<close> of value 0
  with the lower bound 5: \<^verbatim>\<open>cm\<close> returns true with \<open>new_value = 3\<close>, which is below
  the bound.
\<close>

theorem cm_success_counterexample:
  "(case cm_coeff st_lo5 atom_ge3 0 (- 1) 0 of
      None \<Rightarrow> False
    | Some ((b, nv), s) \<Rightarrow> b \<and> nv = 3 \<and> \<not> in_bounds st_lo5 0 nv)"
  by code_simp

text \<open>
  C4. The term \<open>x mod y\<close> with \<open>y = 0\<close> and \<open>x = 5\<close>. \<^verbatim>\<open>mk_op\<close> stores the definition with
  the result itself as first operand and \<open>x\<close> as second, and gives the result the value 0.
  Once the result has the value 7 (by \<^verbatim>\<open>update\<close>, as \<^verbatim>\<open>set_value\<close> calls it), \<^verbatim>\<open>repair_up\<close>
  evaluates \<open>mod(7, 5)\<close> and assigns 2 to the result, while \<open>y\<close> is 0.
\<close>

theorem mk_op_drops_divisor:
  "case mk_op OP_MOD 0 1 2 st_xmody of
     None \<Rightarrow> False
   | Some (v, s1) \<Rightarrow>
       v = 0 \<and> value_of s1 0 = 0 \<and> value_of s1 1 = 5 \<and> value_of s1 2 = 0
     \<and> m_ops s1 = [\<lparr>op_var = 0, op_kind = OP_MOD, m_arg1 = 0, m_arg2 = 1\<rparr>]
     \<and> (case update 3 s1 0 7 of
           None \<Rightarrow> False
         | Some (b, s2) \<Rightarrow>
             b \<and> value_of s2 0 = 7 \<and> value_of s2 2 = 0
           \<and> (case repair_up 3 s2 0 of
                 None \<Rightarrow> False
               | Some s3 \<Rightarrow> value_of s3 2 = 0 \<and> value_of s3 1 = 5 \<and> value_of s3 0 = 2))"
  by code_simp


lemma update_st_fixed: "update 2 st_fixed 0 (- 1) = Some (False, st_fixed)"
  by (simp add: st_fixed_def new_arith_base_def new_var_info_def new_controller_def numeral_2_eq_2
      in_bounds_def is_int_def below_lo_def lo_value_def)






text \<open>
  C9. Whenever \<^verbatim>\<open>update(v, n)\<close> returns false, the state of the engine and of the
  controller is the state before the call.
\<close>

theorem update_failed_atomic:
  "update fuel st v n = Some (b, st') \<Longrightarrow> \<not> b \<Longrightarrow> st' = st"
proof (induction fuel arbitrary: n)
  case 0
  then show ?case by simp
next
  case (Suc fuel)
  then show ?case
    by (auto simp: Let_def split: if_splits option.splits)
qed

theorem update_failed_atomic_witness:
  "update 2 st_fixed 0 (- 1) = Some (False, st_fixed) \<and> \<not> False \<and> st_fixed = st_fixed"
  using update_failed_atomic[of 2 st_fixed 0 "- 1" False st_fixed] update_st_fixed by simp

text \<open>
  C10. \<^verbatim>\<open>factor(n)\<close> terminates for every \<open>n \<noteq> 0\<close> and does not terminate for
  \<open>n = 0\<close>; \<^verbatim>\<open>repair_mul\<close> reaches it with the argument 0: for \<open>v = 2 * x * y\<close> with
  \<open>value(v) = 1\<close> and all draws 1, the local \<open>n\<close> is \<open>div(1, 2) = 0\<close> and the repair has
  no result.
\<close>

theorem factor_terminates:
  "(n \<noteq> 0 \<longrightarrow> (\<exists>fs. factor n = Some fs))
   \<and> factor 0 = None
   \<and> fst (repair_mul_n (snd (ctx_rand 4 (snd (ctx_rand 20 st_2xy)))) (value_of st_2xy (mul_var md_2xy))
         (mul_coeff md_2xy)) = 0
   \<and> repair_mul fuel st_2xy md_2xy = None"
proof (intro conjI impI)
  assume "n \<noteq> 0"
  from factor_returns[OF this] obtain fs where "factor n = Some fs \<and> (0 < n \<longrightarrow> prod_list fs = n)" ..
  then have "factor n = Some fs" ..
  then show "\<exists>fs. factor n = Some fs" ..
next
  show "factor 0 = None" by (rule factor_zero)
  show "fst (repair_mul_n (snd (ctx_rand 4 (snd (ctx_rand 20 st_2xy)))) (value_of st_2xy (mul_var md_2xy))
         (mul_coeff md_2xy)) = 0" by (rule st_2xy_n(3))
  show "repair_mul fuel st_2xy md_2xy = None" by (rule repair_mul_st_2xy)
qed

theorem factor_terminates_witness:
  "(360::int) \<noteq> 0 \<and> (\<exists>fs. factor 360 = Some fs)"
  using factor_terminates[of 360, THEN conjunct1] by simp

end
